theory Spec2Isabelle
  imports Main "HOL-Library.Sublist"
begin

unbundle bit_operations_syntax

section \<open>The load pipeline of load.go\<close>

text \<open>
  A shallow embedding of \<^verbatim>\<open>load.go\<close>: \<^verbatim>\<open>ErrorPos\<close>, \<^verbatim>\<open>ignNotatedErrs\<close>,
  \<^verbatim>\<open>isNotatedErr\<close>, \<^verbatim>\<open>LoadMod\<close>, \<^verbatim>\<open>LoadDir\<close>, \<^verbatim>\<open>afterLoad\<close>,
  \<^verbatim>\<open>checkGopDeps\<close> and \<^verbatim>\<open>LoadFiles\<close>. The parser, the compiler backend, the module
  descriptor and the position table are collaborators whose code is elsewhere: their
  behaviour during one call is a parameter (the record \<open>externals\<close>), and everything
  the pipeline does to the outside is written to an explicit \<open>world\<close>.
\<close>

subsection \<open>Errors\<close>

type_synonym Pos = int

definition NoPos :: Pos where
  "NoPos = 0"

text \<open>
  A non-nil value of Go's \<^verbatim>\<open>error\<close> interface; nil is \<open>None\<close> of \<open>error option\<close>.
  \<open>CodeError\<close> and \<open>ImportError\<close> carry their \<^verbatim>\<open>Pos\<close> field, \<open>MatchError\<close> the value
  its \<^verbatim>\<open>Pos()\<close> method returns. \<open>ErrList\<close> is \<^verbatim>\<open>errors.List\<close> (a slice of errors),
  \<open>Frame\<close> the wrapper built by \<^verbatim>\<open>errors.NewWith\<close> (the wrapped error and the source
  text of the failing expression), \<open>OtherError\<close> any other kind of error.
\<close>

datatype error =
    CodeError Pos string
  | MatchError Pos string
  | ImportError Pos string
  | ErrList "error list"
  | Frame error string
  | ErrNotFound
  | ErrIgnoreNotated
  | ErrMultiPackges
  | ErrMultiTestPackges
  | OtherError string

datatype panic = NilDereference | IndexOutOfRange | SliceBoundsOutOfRange

definition NewWith :: "error \<Rightarrow> string \<Rightarrow> error" where
  "NewWith err code = Frame err code"

fun errors_Err :: "error \<Rightarrow> error" where
  "errors_Err (Frame e c) = errors_Err e"
| "errors_Err e = e"

definition IgnoreNotated :: "error option \<Rightarrow> bool" where
  "IgnoreNotated err = (map_option errors_Err err = Some ErrIgnoreNotated)"

fun ErrorPos :: "error option \<Rightarrow> Pos" where
  "ErrorPos (Some (CodeError p m)) = p"
| "ErrorPos (Some (MatchError p m)) = p"
| "ErrorPos (Some (ImportError p m)) = p"
| "ErrorPos err = NoPos"

subsection \<open>Strings\<close>

text \<open>
  \<^verbatim>\<open>strings.Index\<close>: the index of the first instance of \<open>sub\<close> in \<open>s\<close>, or \<open>-1\<close>;
  \<^verbatim>\<open>strings.Contains\<close> is \<^verbatim>\<open>Index(s, sub) >= 0\<close>; \<^verbatim>\<open>strings.HasSuffix\<close> is
  \<^verbatim>\<open>len(s) >= len(suffix) && s[len(s)-len(suffix):] == suffix\<close>.
\<close>

fun strings_Index :: "string \<Rightarrow> string \<Rightarrow> int" where
  "strings_Index [] sub = (if sub = [] then 0 else -1)"
| "strings_Index (c # s) sub =
     (if prefix sub (c # s) then 0
      else (let r = strings_Index s sub in if r < 0 then -1 else r + 1))"

definition strings_Contains :: "string \<Rightarrow> string \<Rightarrow> bool" where
  "strings_Contains s sub = (0 \<le> strings_Index s sub)"

definition strings_HasSuffix :: "string \<Rightarrow> string \<Rightarrow> bool" where
  "strings_HasSuffix s suf =
     (length suf \<le> length s \<and> drop (length s - length suf) s = suf)"

subsection \<open>The position table\<close>

text \<open>
  A file of the position table: its registered name, its base in the global offset
  space, its size in bytes, its table of line-start offsets, and the alternative line
  information that the scanner records for every \<^verbatim>\<open>//line\<close> directive of the source
  (the offset from which the directive holds, and the file name, line and column it
  gives; column 0 when it gives none).
\<close>

record token_lineInfo =
  info_Offset :: nat
  info_Filename :: string
  info_Line :: int
  info_Column :: int

record token_File =
  file_Name :: string
  file_Base :: nat
  file_Size :: nat
  file_lines :: "nat list"
  file_infos :: "token_lineInfo list"

type_synonym FileSet = "token_File list"

text \<open>
  Modelled from the spec: \<^verbatim>\<open>FileSet.File\<close> and \<^verbatim>\<open>token.Lines\<close> are not in
  \<^verbatim>\<open>load.go\<close>. "Look up the file in the position table by the position; no match: not
  notated": the file whose range \<open>[base, base + size]\<close> holds the position, none for
  \<open>NoPos\<close>. "The file's table of line-start offsets": \<open>token_Lines\<close> is the table itself.
\<close>

definition FileSet_File :: "FileSet \<Rightarrow> Pos \<Rightarrow> token_File option" where
  "FileSet_File fset p =
     (if p \<noteq> NoPos
      then find (\<lambda>f. int (file_Base f) \<le> p \<and> p \<le> int (file_Base f) + int (file_Size f)) fset
      else None)"

definition token_Lines :: "token_File \<Rightarrow> nat list" where
  "token_Lines f = file_lines f"

text \<open>
  \<^verbatim>\<open>File.Line\<close> is the line of \<^verbatim>\<open>File.Position\<close>, which the Go library computes with
  line directives applied. \<open>searchInts a x\<close> is the index of the last entry of the
  ascending table \<open>a\<close> that is at most \<open>x\<close>, or \<open>-1\<close>, and \<open>searchLineInfos\<close> the same
  over the offsets of the alternative line information. The line is first the physical
  one, the index of the last line start at or before the offset plus one (0 when there is
  none); when a directive holds at the offset, it becomes the line the directive gives
  plus the distance of the physical line from the line at which the directive took
  effect. The line of \<open>NoPos\<close> is 0.
\<close>

definition searchInts :: "nat list \<Rightarrow> int \<Rightarrow> int" where
  "searchInts a x = int (length (takeWhile (\<lambda>l. int l \<le> x) a)) - 1"

definition searchLineInfos :: "token_lineInfo list \<Rightarrow> int \<Rightarrow> int" where
  "searchLineInfos a x = int (length (takeWhile (\<lambda>i. int (info_Offset i) \<le> x) a)) - 1"

definition File_Line :: "token_File \<Rightarrow> Pos \<Rightarrow> int" where
  "File_Line f p =
     (if p = NoPos then 0
      else
       (let offset = p - int (file_Base f);
            i = searchInts (file_lines f) offset;
            line = (if 0 \<le> i then i + 1 else 0)
        in if length (file_infos f) > 0 then
             (let k = searchLineInfos (file_infos f) offset
              in if 0 \<le> k then
                   (let alt = file_infos f ! nat k;
                        j = searchInts (file_lines f) (int (info_Offset alt))
                    in if 0 \<le> j then info_Line alt + (line - (j + 1)) else line)
                 else line)
           else line))"

subsection \<open>Packages\<close>

text \<open>
  \<^verbatim>\<open>ast.File\<close> with the one field \<^verbatim>\<open>load.go\<close> reads, the raw source text; and
  \<^verbatim>\<open>ast.Package\<close> with its map from file name to parsed file, as an association list
  (\<open>map_of\<close> looks a name up; the map is empty exactly when the list is).
\<close>

record ast_File =
  Code :: string

record ast_Package =
  Files :: "(string \<times> ast_File) list"

text \<open>
  \<^verbatim>\<open>gox.Package\<close> as far as \<^verbatim>\<open>checkGopDeps\<close> sees it: for each file of the compiled
  package, its name and the flags that \<^verbatim>\<open>file.CheckGopDeps(pkg)\<close> reports. The flags
  are Go ints that are only OR'ed and compared with 0, which cannot overflow.
\<close>

record gox_Package =
  gox_Files :: "(string \<times> int) list"

record Module =
  Path :: string
  HasModfile :: bool

type_synonym env_Gop = string

text \<open>
  \<^verbatim>\<open>Config\<close>. A nil pointer is \<open>None\<close>; \<open>GopDeps\<close> is a pointer to an int, that is an
  address in the memory of the \<open>world\<close>. \<^verbatim>\<open>Importer\<close> and \<^verbatim>\<open>Filter\<close> are only
  handed to the parser and the compiler and are part of their behaviour here.
\<close>

record Config =
  Gop :: "env_Gop option"
  Fset :: "FileSet option"
  Mod :: "Module option"
  GopDeps :: "nat option"
  IgnoreNotatedError :: bool
  DontUpdateGoMod :: bool

definition new_Config :: Config where
  "new_Config = \<lparr>Gop = None, Fset = None, Mod = None, GopDeps = None,
     IgnoreNotatedError = False, DontUpdateGoMod = False\<rparr>"

subsection \<open>The outside world\<close>

text \<open>
  \<open>compiled\<close> records every call of \<^verbatim>\<open>cl.NewPackage\<close>, oldest first: the call site, the
  package compiled and the two values returned. \<open>stderr\<close> holds the lines printed,
  \<open>mem\<close> the ints that pointers such as \<^verbatim>\<open>Config.GopDeps\<close> point to, and \<open>saved\<close>
  every call of \<^verbatim>\<open>mod.SaveWithGopMod\<close> with its arguments and the error it returned.
\<close>

datatype call_site = LoadDir_out | LoadDir_test | LoadFiles_out

type_synonym compile_call =
  "call_site \<times> ast_Package \<times> gox_Package option \<times> error option"

record world =
  compiled :: "compile_call list"
  stderr :: "string list"
  mem :: "nat \<Rightarrow> int"
  saved :: "(env_Gop \<times> int \<times> error option) list"

text \<open>
  The collaborators. \<open>gopMod\<close> is the module path of the toolchain itself, a constant
  declared outside \<^verbatim>\<open>load.go\<close>. \<open>ParseDirEx\<close> and \<open>ParseEntries\<close> take the position
  table and return it with the parsed files registered, the packages in the order in
  which the \<^verbatim>\<open>range\<close> loop over the map visits them, and the error. \<open>NewPackage\<close> is
  \<^verbatim>\<open>cl.NewPackage("", pkg, clConf)\<close> for the one \<^verbatim>\<open>clConf\<close> of the call; its result may
  depend on the compiles done before it, which share the importer.
\<close>

record externals =
  gopMod :: string
  gopmod_Load :: "string \<Rightarrow> Module option \<times> error option"
  gopmod_IsNotFound :: "error \<Rightarrow> bool"
  gopmod_Default :: Module
  ImportClasses :: "Module \<Rightarrow> error option"
  gopenv_Get :: env_Gop
  ParseDirEx :: "FileSet \<Rightarrow> string \<Rightarrow> FileSet \<times> (string \<times> ast_Package) list \<times> error option"
  ParseEntries :: "FileSet \<Rightarrow> string list \<Rightarrow> FileSet \<times> (string \<times> ast_Package) list \<times> error option"
  NewPackage :: "compile_call list \<Rightarrow> ast_Package \<Rightarrow> gox_Package option \<times> error option"
  SaveWithGopMod :: "env_Gop \<Rightarrow> int \<Rightarrow> error option"

subsection \<open>Notated errors\<close>

text \<open>
  \<^verbatim>\<open>isNotatedErr\<close>. \<^verbatim>\<open>lines[i]\<close> panics out of range and \<^verbatim>\<open>gopf.Code[start:end]\<close>
  panics unless \<open>start \<le> end \<le> length Code\<close> (the slice's capacity is taken to be its
  length).
\<close>

definition isNotatedErr :: "error option \<Rightarrow> ast_Package \<Rightarrow> FileSet \<Rightarrow> panic + bool" where
  "isNotatedErr err pkg fset =
     (let pos = ErrorPos err in
      case FileSet_File fset pos of
        None \<Rightarrow> Inr False
      | Some f \<Rightarrow>
         (case map_of (Files pkg) (file_Name f) of
            None \<Rightarrow> Inr False
          | Some gopf \<Rightarrow>
             (let lines = token_Lines f;
                  i = File_Line f pos - 1
              in if i < 0 \<or> int (length lines) \<le> i then Inl IndexOutOfRange
                 else
                  (let start = lines ! nat i;
                       end = (if i + 1 < int (length lines) then lines ! nat (i + 1)
                              else file_Size f)
                   in if end < start \<or> length (Code gopf) < end then Inl SliceBoundsOutOfRange
                      else
                       (let text = take (end - start) (drop start (Code gopf));
                            commentOff = strings_Index text ''//''
                        in if commentOff < 0 then Inr False
                           else Inr (strings_Contains (drop (nat (commentOff + 2)) text)
                                       ''compile error:''))))))"

text \<open>The loop of \<^verbatim>\<open>ignNotatedErrs\<close> over an \<^verbatim>\<open>errors.List\<close>, \<open>ret\<close> being built.\<close>

fun ignNotatedErrs_loop ::
  "error list \<Rightarrow> ast_Package \<Rightarrow> FileSet \<Rightarrow> error list \<Rightarrow> panic + error list" where
  "ignNotatedErrs_loop [] pkg fset ret = Inr ret"
| "ignNotatedErrs_loop (e # v) pkg fset ret =
     (case isNotatedErr (Some e) pkg fset of
        Inl p \<Rightarrow> Inl p
      | Inr notated \<Rightarrow>
         (if notated then ignNotatedErrs_loop v pkg fset ret
          else ignNotatedErrs_loop v pkg fset (ret @ [e])))"

fun ignNotatedErrs :: "error option \<Rightarrow> ast_Package \<Rightarrow> FileSet \<Rightarrow> panic + error option" where
  "ignNotatedErrs (Some (ErrList v)) pkg fset =
     (case ignNotatedErrs_loop v pkg fset [] of
        Inl p \<Rightarrow> Inl p
      | Inr ret \<Rightarrow> if length ret = 0 then Inr (Some ErrIgnoreNotated) else Inr (Some (ErrList ret)))"
| "ignNotatedErrs err pkg fset =
     (case isNotatedErr err pkg fset of
        Inl p \<Rightarrow> Inl p
      | Inr notated \<Rightarrow> if notated then Inr (Some ErrIgnoreNotated) else Inr err)"

subsection \<open>Loading\<close>

definition LoadMod :: "externals \<Rightarrow> string \<Rightarrow> Module option \<times> error option" where
  "LoadMod X dir =
     (case gopmod_Load X dir of (md, err) \<Rightarrow>
        (case err of
           Some e \<Rightarrow>
             if \<not> gopmod_IsNotFound X e
             then (md, Some (NewWith e ''gopmod.Load(dir, 0)''))
             else (let m = (case md of None \<Rightarrow> gopmod_Default X | Some m' \<Rightarrow> m')
                   in (Some m, map_option (\<lambda>e'. NewWith e' ''mod.ImportClasses()'')
                                 (ImportClasses X m)))
         | None \<Rightarrow>
             (let m = (case md of None \<Rightarrow> gopmod_Default X | Some m' \<Rightarrow> m')
              in (Some m, map_option (\<lambda>e'. NewWith e' ''mod.ImportClasses()'')
                            (ImportClasses X m)))))"

text \<open>
  \<^verbatim>\<open>checkGopDeps\<close>: \<^verbatim>\<open>ForEachFile\<close> reads the files of the package, so a nil package
  is a nil dereference; otherwise the callback ORs the flags of every file into
  \<^verbatim>\<open>flags\<close>, which starts at 0 (\<open>ForEachFile_flags\<close>).
\<close>

definition ForEachFile_flags :: "gox_Package \<Rightarrow> int" where
  "ForEachFile_flags p = fold (\<lambda>(fname, fl) flags. flags OR fl) (gox_Files p) 0"

definition checkGopDeps :: "gox_Package option \<Rightarrow> panic + int" where
  "checkGopDeps pkg =
     (case pkg of
        None \<Rightarrow> Inl NilDereference
      | Some p \<Rightarrow> Inr (ForEachFile_flags p))"

definition afterLoad ::
  "externals \<Rightarrow> Module \<Rightarrow> env_Gop \<Rightarrow> gox_Package option \<Rightarrow> gox_Package option \<Rightarrow> Config
     \<Rightarrow> world \<Rightarrow> panic + world" where
  "afterLoad X md gop out test conf w =
     (if Path md = gopMod X then Inr w
      else
       (let updateMod = (\<not> DontUpdateGoMod conf \<and> HasModfile md) in
        if updateMod \<or> GopDeps conf \<noteq> None then
          (case checkGopDeps out of
             Inl p \<Rightarrow> Inl p
           | Inr flags \<Rightarrow>
              (let w1 = (case GopDeps conf of
                           None \<Rightarrow> w
                         | Some a \<Rightarrow> w\<lparr>mem := (mem w)(a := flags)\<rparr>)
               in if updateMod then
                    (case (if test \<noteq> None
                           then (case checkGopDeps test of
                                   Inl p \<Rightarrow> Inl p
                                 | Inr tflags \<Rightarrow> Inr (flags OR tflags))
                           else Inr flags) of
                       Inl p \<Rightarrow> Inl p
                     | Inr flags' \<Rightarrow>
                        if flags' \<noteq> 0
                        then Inr (w1\<lparr>saved := saved w1 @ [(gop, flags', SaveWithGopMod X gop flags')]\<rparr>)
                        else Inr w1)
                  else Inr w1))
        else Inr w))"

text \<open>
  How the \<^verbatim>\<open>for name, pkg := range pkgs\<close> loop of \<^verbatim>\<open>LoadDir\<close> ends: by a
  \<^verbatim>\<open>return\<close> of the function (with the three results), by running off the end of the map
  (with \<^verbatim>\<open>out\<close> and \<^verbatim>\<open>pkgTest\<close>), or by a panic.
\<close>

datatype loop_exit =
    Return "gox_Package option \<times> gox_Package option \<times> error option" world
  | Fallthrough "gox_Package option" "ast_Package option" world
  | Panicked panic

fun LoadDir_loop ::
  "externals \<Rightarrow> string \<Rightarrow> Config \<Rightarrow> FileSet \<Rightarrow> bool list option
     \<Rightarrow> (string \<times> ast_Package) list \<Rightarrow> gox_Package option \<Rightarrow> ast_Package option \<Rightarrow> world
     \<Rightarrow> loop_exit" where
  "LoadDir_loop X dir conf fset promptGenGo [] out pkgTest w = Fallthrough out pkgTest w"
| "LoadDir_loop X dir conf fset promptGenGo ((name, pkg) # rest) out pkgTest w =
     (if strings_HasSuffix name ''_test'' then
        (if pkgTest \<noteq> None then Return (None, None, Some ErrMultiTestPackges) w
         else LoadDir_loop X dir conf fset promptGenGo rest out (Some pkg) w)
      else if out \<noteq> None then Return (None, None, Some ErrMultiPackges) w
      else if length (Files pkg) = 0 then
        LoadDir_loop X dir conf fset promptGenGo rest out pkgTest w
      else
       (case promptGenGo of
          Some [] \<Rightarrow> Panicked IndexOutOfRange
        | _ \<Rightarrow>
          (let w1 = (if promptGenGo \<noteq> None \<and> hd (the promptGenGo)
                     then w\<lparr>stderr := stderr w @ [''GenGo '' @ dir @ '' ...'']\<rparr> else w)
           in case NewPackage X (compiled w1) pkg of
                (out', err0) \<Rightarrow>
                  (let w2 = w1\<lparr>compiled := compiled w1 @ [(LoadDir_out, pkg, out', err0)]\<rparr>
                   in case err0 of
                        Some e \<Rightarrow>
                          (if IgnoreNotatedError conf then
                             (case ignNotatedErrs (Some e) pkg fset of
                                Inl p \<Rightarrow> Panicked p
                              | Inr err \<Rightarrow> Return (out', None, err) w2)
                           else Return (out', None, Some e) w2)
                      | None \<Rightarrow>
                          LoadDir_loop X dir conf fset promptGenGo rest out' pkgTest w2))))"

text \<open>
  The defaults that \<^verbatim>\<open>LoadDir\<close> and \<^verbatim>\<open>LoadFiles\<close> both start with: a nil
  configuration is a new one, a nil module is loaded from the directory, a nil position
  table is a new, empty one, and a nil environment is \<^verbatim>\<open>gopenv.Get()\<close>.
\<close>

definition conf_or_new :: "Config option \<Rightarrow> Config" where
  "conf_or_new conf0 = (case conf0 of None \<Rightarrow> new_Config | Some c \<Rightarrow> c)"

definition conf_Mod :: "externals \<Rightarrow> string \<Rightarrow> Config \<Rightarrow> Module option \<times> error option" where
  "conf_Mod X dir conf = (case Mod conf of Some m \<Rightarrow> (Some m, None) | None \<Rightarrow> LoadMod X dir)"

definition conf_Fset :: "Config \<Rightarrow> FileSet" where
  "conf_Fset conf = (case Fset conf of None \<Rightarrow> [] | Some s \<Rightarrow> s)"

definition conf_Gop :: "externals \<Rightarrow> Config \<Rightarrow> env_Gop" where
  "conf_Gop X conf = (case Gop conf of None \<Rightarrow> gopenv_Get X | Some g \<Rightarrow> g)"

text \<open>
  \<^verbatim>\<open>LoadDir\<close> in three parts, top down in the source: \<open>LoadDir\<close> itself resolves the
  configuration and parses the directory (up to the empty-map check), \<open>LoadDir_compile\<close>
  runs the loop over the packages, and \<open>LoadDir_rest\<close> is what follows the loop: the
  check that a production package was compiled, the test package, the post-load hook.
\<close>

definition LoadDir_rest ::
  "externals \<Rightarrow> Module \<Rightarrow> env_Gop \<Rightarrow> Config \<Rightarrow> bool \<Rightarrow> gox_Package option
     \<Rightarrow> ast_Package option \<Rightarrow> world
     \<Rightarrow> panic + ((gox_Package option \<times> gox_Package option \<times> error option) \<times> world)" where
  "LoadDir_rest X md gop conf genTestPkg out pkgTest w =
     (if out = None then Inr ((None, None, Some ErrNotFound), w)
      else
       (let (test, err, w1) =
              (case pkgTest of
                 Some pt \<Rightarrow>
                   if genTestPkg
                   then (case NewPackage X (compiled w) pt of
                           (test, err) \<Rightarrow>
                             (test, err,
                              w\<lparr>compiled := compiled w @ [(LoadDir_test, pt, test, err)]\<rparr>))
                   else (None, None, w)
               | None \<Rightarrow> (None, None, w))
        in case afterLoad X md gop out test conf w1 of
             Inl p \<Rightarrow> Inl p
           | Inr w2 \<Rightarrow> Inr ((out, test, err), w2)))"

definition LoadDir_compile ::
  "externals \<Rightarrow> string \<Rightarrow> Config \<Rightarrow> Module \<Rightarrow> FileSet \<Rightarrow> (string \<times> ast_Package) list
     \<Rightarrow> bool \<Rightarrow> bool list option \<Rightarrow> world
     \<Rightarrow> panic + ((gox_Package option \<times> gox_Package option \<times> error option) \<times> world)" where
  "LoadDir_compile X dir conf md fset pkgs genTestPkg promptGenGo w =
     (let gop = conf_Gop X conf in
      case LoadDir_loop X dir conf fset promptGenGo pkgs None None w of
        Panicked p \<Rightarrow> Inl p
      | Return res w1 \<Rightarrow> Inr (res, w1)
      | Fallthrough out pkgTest w1 \<Rightarrow> LoadDir_rest X md gop conf genTestPkg out pkgTest w1)"

definition LoadDir ::
  "externals \<Rightarrow> string \<Rightarrow> Config option \<Rightarrow> bool \<Rightarrow> bool list option \<Rightarrow> world
     \<Rightarrow> panic + ((gox_Package option \<times> gox_Package option \<times> error option) \<times> world)" where
  "LoadDir X dir conf0 genTestPkg promptGenGo w =
     (let conf = conf_or_new conf0 in
      case conf_Mod X dir conf of
        (mod0, Some e) \<Rightarrow> Inr ((None, None, Some (NewWith e ''LoadMod(dir)'')), w)
      | (None, None) \<Rightarrow> Inl NilDereference
      | (Some md, None) \<Rightarrow>
         (case ParseDirEx X (conf_Fset conf) dir of
            (fset, pkgs, Some e) \<Rightarrow> Inr ((None, None, Some e), w)
          | (fset, pkgs, None) \<Rightarrow>
             if length pkgs = 0 then Inr ((None, None, Some ErrNotFound), w)
             else LoadDir_compile X dir conf md fset pkgs genTestPkg promptGenGo w))"

text \<open>
  \<^verbatim>\<open>LoadFiles\<close>: \<open>LoadFiles_compile\<close> is its part after the check of the number of
  packages, for the one package of the map.
\<close>

definition LoadFiles_compile ::
  "externals \<Rightarrow> Config \<Rightarrow> Module \<Rightarrow> FileSet \<Rightarrow> ast_Package \<Rightarrow> world
     \<Rightarrow> panic + ((gox_Package option \<times> error option) \<times> world)" where
  "LoadFiles_compile X conf md fset pkg w =
     (let gop = conf_Gop X conf in
      case NewPackage X (compiled w) pkg of
        (out, err0) \<Rightarrow>
          (let w1 = w\<lparr>compiled := compiled w @ [(LoadFiles_out, pkg, out, err0)]\<rparr> in
           case (case err0 of
                   Some e \<Rightarrow> if IgnoreNotatedError conf
                             then ignNotatedErrs (Some e) pkg fset
                             else Inr (Some e)
                 | None \<Rightarrow> Inr None) of
             Inl p \<Rightarrow> Inl p
           | Inr err \<Rightarrow>
              (case afterLoad X md gop out None conf w1 of
                 Inl p \<Rightarrow> Inl p
               | Inr w2 \<Rightarrow> Inr ((out, err), w2))))"

definition LoadFiles ::
  "externals \<Rightarrow> string \<Rightarrow> string list \<Rightarrow> Config option \<Rightarrow> world
     \<Rightarrow> panic + ((gox_Package option \<times> error option) \<times> world)" where
  "LoadFiles X dir files conf0 w =
     (let conf = conf_or_new conf0 in
      case conf_Mod X dir conf of
        (mod0, Some e) \<Rightarrow> Inr ((None, Some (NewWith e ''LoadMod(dir)'')), w)
      | (None, None) \<Rightarrow> Inl NilDereference
      | (Some md, None) \<Rightarrow>
         (case ParseEntries X (conf_Fset conf) files of
            (fset, pkgs, Some e) \<Rightarrow>
              Inr ((None, Some (NewWith e
                ''parser.ParseFiles(fset, files, parser.ParseComments)'')), w)
          | (fset, pkgs, None) \<Rightarrow>
             if length pkgs \<noteq> 1
             then Inr ((None, Some (NewWith ErrMultiPackges ''len(pkgs) != 1'')), w)
             else LoadFiles_compile X conf md fset (snd (hd pkgs)) w))"

subsection \<open>Vocabulary of the properties\<close>

text \<open>
  The flags of the test package as the hook sees them (none when there is no test
  package), and a compile of the production package that reported no error.
\<close>

definition test_flags :: "gox_Package option \<Rightarrow> int" where
  "test_flags test = (case test of None \<Rightarrow> 0 | Some t \<Rightarrow> ForEachFile_flags t)"

definition compile_ok :: "compile_call \<Rightarrow> bool" where
  "compile_ok c = (case c of (site, pkg, out, err) \<Rightarrow> site = LoadDir_out \<and> err = None)"

text \<open>
  The classification of an error as the spec words it, to be compared with
  \<open>isNotatedErr\<close>. \<open>first_occurrence sub s pre post\<close>: \<open>s\<close> is \<open>pre\<close>, then \<open>sub\<close>,
  then \<open>post\<close>, and no instance of \<open>sub\<close> in \<open>s\<close> starts earlier. \<open>line_range f off
  start end\<close>: the line of \<open>f\<close> that holds the offset \<open>off\<close>, the last one that
  starts at or before it, runs from \<open>start\<close> to \<open>end\<close>, the start of the next line or
  the size of the file for the last line. \<open>spec_position\<close>: the position that each
  kind of error exposes, none for an error of another kind. \<open>spec_notated\<close>: the error
  has a position, which resolves to a file of the position table, the name of the file maps to a parsed file of
  the package, the text of the line of the position has an instance of \<open>//\<close>, and
  the text after the first one contains \<open>compile error:\<close>.
\<close>

definition first_occurrence :: "string \<Rightarrow> string \<Rightarrow> string \<Rightarrow> string \<Rightarrow> bool" where
  "first_occurrence sub s pre post =
     (s = pre @ sub @ post \<and> (\<forall>pre' post'. s = pre' @ sub @ post' \<longrightarrow> length pre \<le> length pre'))"

definition line_range :: "token_File \<Rightarrow> nat \<Rightarrow> nat \<Rightarrow> nat \<Rightarrow> bool" where
  "line_range f off start end =
     (\<exists>i < length (file_lines f).
        file_lines f ! i \<le> off \<and>
        (\<forall>j < length (file_lines f). file_lines f ! j \<le> off \<longrightarrow> j \<le> i) \<and>
        start = file_lines f ! i \<and>
        end = (if i + 1 < length (file_lines f) then file_lines f ! (i + 1) else file_Size f))"

definition spec_position :: "error option \<Rightarrow> Pos option" where
  "spec_position err =
     (case err of
        None \<Rightarrow> None
      | Some e \<Rightarrow>
         (case e of
            CodeError p m \<Rightarrow> Some p
          | MatchError p m \<Rightarrow> Some p
          | ImportError p m \<Rightarrow> Some p
          | _ \<Rightarrow> None))"

definition spec_notated :: "error option \<Rightarrow> ast_Package \<Rightarrow> FileSet \<Rightarrow> bool" where
  "spec_notated err pkg fset =
     (\<exists>p f gopf start end pre post.
        spec_position err = Some p \<and>
        FileSet_File fset p = Some f \<and>
        map_of (Files pkg) (file_Name f) = Some gopf \<and>
        line_range f (nat (p - int (file_Base f))) start end \<and>
        first_occurrence ''//'' (take (end - start) (drop start (Code gopf))) pre post \<and>
        sublist ''compile error:'' post)"

text \<open>
  What the parser leaves behind: the line table of every file of the position table
  starts with offset 0, ascends and stays within the size of the file, and the source
  text of a file that the package holds is at least as long as the size registered for
  it. \<open>no_line_directives\<close>: no file of the table has alternative line information.
\<close>

definition wf_position_table :: "FileSet \<Rightarrow> ast_Package \<Rightarrow> bool" where
  "wf_position_table fset pkg =
     (\<forall>f \<in> set fset.
        file_lines f \<noteq> [] \<and> hd (file_lines f) = 0 \<and> sorted (file_lines f) \<and>
        (\<forall>l \<in> set (file_lines f). l \<le> file_Size f) \<and>
        (\<forall>gopf. map_of (Files pkg) (file_Name f) = Some gopf \<longrightarrow>
           file_Size f \<le> length (Code gopf)))"

definition no_line_directives :: "FileSet \<Rightarrow> bool" where
  "no_line_directives fset = (\<forall>f \<in> set fset. file_infos f = [])"

subsection \<open>A concrete directory\<close>

text \<open>
  A directory with a production package \<open>main\<close> (one file, one line) and a test
  package \<open>main_test\<close> whose second line carries the marker of an expected compile
  error. The production package compiles; compiling any other package reports
  \<open>ex_err\<close>, a code error positioned on that second line. The module has a manifest
  file, and writing the manifest fails.
\<close>

definition ex_world :: world where
  "ex_world = \<lparr>compiled = [], stderr = [], mem = (\<lambda>a. 0), saved = []\<rparr>"

definition ex_src :: string where
  "ex_src = ''x := 1'' @ [CHR 0x0A] @ ''y := z // compile error: undefined'' @ [CHR 0x0A]"

definition ex_main_file :: token_File where
  "ex_main_file = \<lparr>file_Name = ''a.gop'', file_Base = 1, file_Size = 7, file_lines = [0],
     file_infos = []\<rparr>"

definition ex_test_file :: token_File where
  "ex_test_file =
     \<lparr>file_Name = ''a_test.gop'', file_Base = 9, file_Size = 42, file_lines = [0, 7],
      file_infos = []\<rparr>"

definition ex_main :: ast_Package where
  "ex_main = \<lparr>Files = [(''a.gop'', \<lparr>Code = ''x := 1'' @ [CHR 0x0A]\<rparr>)]\<rparr>"

definition ex_test :: ast_Package where
  "ex_test = \<lparr>Files = [(''a_test.gop'', \<lparr>Code = ex_src\<rparr>)]\<rparr>"

definition ex_empty :: ast_Package where
  "ex_empty = \<lparr>Files = []\<rparr>"

definition ex_out :: gox_Package where
  "ex_out = \<lparr>gox_Files = [(''a.go'', 1)]\<rparr>"

definition ex_out_test :: gox_Package where
  "ex_out_test = \<lparr>gox_Files = [(''a_test.go'', 2)]\<rparr>"

definition ex_err :: error where
  "ex_err = CodeError 17 ''undefined: z''"

definition ex_save_err :: error where
  "ex_save_err = OtherError ''go.mod: permission denied''"

definition ex_mod :: Module where
  "ex_mod = \<lparr>Path = ''example.com/m'', HasModfile = True\<rparr>"

definition ex_conf :: Config where
  "ex_conf = \<lparr>Gop = Some ''gop1.1'', Fset = None, Mod = Some ex_mod, GopDeps = Some 0,
     IgnoreNotatedError = True, DontUpdateGoMod = False\<rparr>"

definition ex_X :: externals where
  "ex_X = \<lparr>gopMod = ''github.com/goplus/gop'',
     gopmod_Load = (\<lambda>d. (None, Some ErrNotFound)),
     gopmod_IsNotFound = (\<lambda>e. errors_Err e = ErrNotFound),
     gopmod_Default = \<lparr>Path = [], HasModfile = False\<rparr>,
     ImportClasses = (\<lambda>m. None),
     gopenv_Get = ''gop1.1'',
     ParseDirEx = (\<lambda>fs d. (fs @ [ex_main_file, ex_test_file],
                     [(''main'', ex_main), (''main_test'', ex_test)], None)),
     ParseEntries = (\<lambda>fs d. (fs @ [ex_main_file], [(''main'', ex_main)], None)),
     NewPackage = (\<lambda>h p. if Files p = Files ex_main then (Some ex_out, None)
                           else (Some ex_out_test, Some ex_err)),
     SaveWithGopMod = (\<lambda>g f. Some ex_save_err)\<rparr>"

text \<open>The same directory with the roles exchanged: the production package is the one that fails.\<close>

definition ex_X_prod_fails :: externals where
  "ex_X_prod_fails = ex_X\<lparr>ParseDirEx := \<lambda>fs d. (fs @ [ex_main_file, ex_test_file],
      [(''main_test'', ex_main), (''main'', ex_test)], None)\<rparr>"

text \<open>The directory of \<open>ex_X\<close> with its packages replaced, in a given visiting order.\<close>

definition ex_X_dir :: "(string \<times> ast_Package) list \<Rightarrow> externals" where
  "ex_X_dir pkgs = ex_X\<lparr>ParseDirEx := \<lambda>fs d. (fs @ [ex_main_file], pkgs, None)\<rparr>"


text \<open>
  A file that starts with a line directive: \<^verbatim>\<open>//line x.gop:\<close> and a line number, then
  the line with the marker of an expected compile error. The scanner records the
  directive for the offset at which the second line starts. \<open>ex_directive_pos\<close> is the
  position of the \<open>z\<close> of the second line.
\<close>

definition ex_directive_src :: "string \<Rightarrow> string" where
  "ex_directive_src num = ''//line x.gop:'' @ num @ [CHR 0x0A] @
     ''y := z // compile error: undefined'' @ [CHR 0x0A]"

definition ex_directive_file :: "string \<Rightarrow> int \<Rightarrow> token_File" where
  "ex_directive_file num line =
     \<lparr>file_Name = ''b.gop'', file_Base = 1, file_Size = length (ex_directive_src num),
      file_lines = [0, 14 + length num],
      file_infos = [\<lparr>info_Offset = 14 + length num, info_Filename = ''x.gop'',
                      info_Line = line, info_Column = 0\<rparr>]\<rparr>"

definition ex_directive_pkg :: "string \<Rightarrow> ast_Package" where
  "ex_directive_pkg num = \<lparr>Files = [(''b.gop'', \<lparr>Code = ex_directive_src num\<rparr>)]\<rparr>"

definition ex_directive_pos :: "string \<Rightarrow> Pos" where
  "ex_directive_pos num = 1 + (14 + int (length num)) + 5"

section \<open>Properties\<close>

lemmas ex_defs = ex_world_def ex_src_def ex_main_file_def ex_test_file_def ex_main_def
  ex_test_def ex_empty_def ex_out_def ex_out_test_def ex_err_def ex_save_err_def ex_mod_def
  ex_conf_def ex_X_def

lemmas eval_defs = conf_or_new_def conf_Mod_def conf_Fset_def conf_Gop_def LoadDir_def
  LoadDir_compile_def LoadDir_rest_def LoadFiles_def
  LoadFiles_compile_def afterLoad_def checkGopDeps_def
  ForEachFile_flags_def isNotatedErr_def FileSet_File_def NoPos_def File_Line_def
  searchInts_def searchLineInfos_def
  token_Lines_def strings_Contains_def strings_HasSuffix_def new_Config_def NewWith_def Let_def

subsection \<open>Resolving the module\<close>

text \<open>
  \<^verbatim>\<open>LoadMod\<close> returns a module whenever it returns no error, so the nil module that
  \<open>LoadDir\<close> and \<open>LoadFiles\<close> would dereference never reaches them.
\<close>

lemma LoadMod_resolved: "LoadMod X dir = (mo, None) \<Longrightarrow> mo \<noteq> None"
  by (auto simp: LoadMod_def Let_def split: prod.splits option.splits if_splits)

lemma conf_Mod_resolved: "conf_Mod X dir conf = (mo, None) \<Longrightarrow> mo \<noteq> None"
  by (cases "Mod conf") (auto simp: conf_Mod_def dest: LoadMod_resolved)

subsection \<open>The post-load hook\<close>

lemma afterLoad_self_hosted:
  "Path md = gopMod X \<Longrightarrow> afterLoad X md gop out test conf w = Inr w"
  by (simp add: afterLoad_def)

lemma afterLoad_Some:
  "Path md \<noteq> gopMod X \<Longrightarrow>
   afterLoad X md gop (Some p) test conf w =
     Inr (let updateMod = (\<not> DontUpdateGoMod conf \<and> HasModfile md);
              total = ForEachFile_flags p OR test_flags test;
              w1 = (case GopDeps conf of None \<Rightarrow> w
                    | Some a \<Rightarrow> w\<lparr>mem := (mem w)(a := ForEachFile_flags p)\<rparr>)
          in if updateMod \<and> total \<noteq> 0
             then w1\<lparr>saved := saved w1 @ [(gop, total, SaveWithGopMod X gop total)]\<rparr>
             else w1)"
  by (cases test; cases "GopDeps conf")
     (simp_all add: afterLoad_def checkGopDeps_def test_flags_def Let_def)

lemma afterLoad_None:
  "Path md \<noteq> gopMod X \<Longrightarrow>
   afterLoad X md gop None test conf w =
     (if (\<not> DontUpdateGoMod conf \<and> HasModfile md) \<or> GopDeps conf \<noteq> None
      then Inl NilDereference else Inr w)"
  by (simp add: afterLoad_def checkGopDeps_def Let_def)

lemma afterLoad_effects:
  assumes "afterLoad X md gop out test conf w = Inr w'"
  shows "compiled w' = compiled w \<and> stderr w' = stderr w \<and>
      (\<forall>a. GopDeps conf \<noteq> Some a \<longrightarrow> mem w' a = mem w a) \<and>
      (saved w' = saved w \<or>
       (\<exists>p. out = Some p \<and> Path md \<noteq> gopMod X \<and> HasModfile md \<and> \<not> DontUpdateGoMod conf \<and>
            ForEachFile_flags p OR test_flags test \<noteq> 0 \<and>
            saved w' = saved w @ [(gop, ForEachFile_flags p OR test_flags test,
                SaveWithGopMod X gop (ForEachFile_flags p OR test_flags test))]))"
proof (cases "Path md = gopMod X")
  case True
  with assms show ?thesis by (auto simp: afterLoad_self_hosted)
next
  case False
  show ?thesis
  proof (cases out)
    case None
    with False assms show ?thesis by (auto simp: afterLoad_None split: if_splits)
  next
    case (Some p)
    with False assms show ?thesis
      by (cases "GopDeps conf") (auto simp: afterLoad_Some Let_def split: if_splits)
  qed
qed

subsection \<open>The loop over the packages\<close>

lemma compile_ok_simp [simp]: "compile_ok (site, pkg, out, err) = (site = LoadDir_out \<and> err = None)"
  by (simp add: compile_ok_def)

lemma LoadDir_loop_compile_step:
  assumes "\<not> strings_HasSuffix name ''_test''" and "out = None" and "Files pkg \<noteq> []"
    and "prompt \<noteq> Some []" and "NewPackage X (compiled w) pkg = (po, eo)"
  shows "\<exists>w2. compiled w2 = compiled w @ [(LoadDir_out, pkg, po, eo)] \<and>
           saved w2 = saved w \<and> mem w2 = mem w \<and>
           LoadDir_loop X dir conf fset prompt ((name, pkg) # pkgs) out pt w =
             (case eo of
                Some e \<Rightarrow>
                  (if IgnoreNotatedError conf then
                     (case ignNotatedErrs (Some e) pkg fset of
                        Inl p \<Rightarrow> Panicked p
                      | Inr err \<Rightarrow> Return (po, None, err) w2)
                   else Return (po, None, Some e) w2)
              | None \<Rightarrow> LoadDir_loop X dir conf fset prompt pkgs po pt w2)"
proof -
  let ?w1 = "if prompt \<noteq> None \<and> hd (the prompt)
             then w\<lparr>stderr := stderr w @ [''GenGo '' @ dir @ '' ...'']\<rparr> else w"
  let ?w2 = "?w1\<lparr>compiled := compiled w @ [(LoadDir_out, pkg, po, eo)]\<rparr>"
  have c: "compiled ?w1 = compiled w" by simp
  have "prompt = None \<or> (\<exists>b bs. prompt = Some (b # bs))"
    using assms(4) by (cases prompt) (auto simp: neq_Nil_conv)
  then have "LoadDir_loop X dir conf fset prompt ((name, pkg) # pkgs) out pt w =
             (case eo of
                Some e \<Rightarrow>
                  (if IgnoreNotatedError conf then
                     (case ignNotatedErrs (Some e) pkg fset of
                        Inl p \<Rightarrow> Panicked p
                      | Inr err \<Rightarrow> Return (po, None, err) ?w2)
                   else Return (po, None, Some e) ?w2)
              | None \<Rightarrow> LoadDir_loop X dir conf fset prompt pkgs po pt ?w2)"
    using assms(1,2,3,5) by (cases eo) (auto simp: Let_def split: sum.splits)
  then show ?thesis by (intro exI[of _ ?w2]) simp
qed

lemma LoadDir_loop_step_cases:
  obtains
    (multi_test) t where "strings_HasSuffix name ''_test''" and "pt = Some t"
      and "LoadDir_loop X dir conf fset prompt ((name, pkg) # pkgs) out pt w
             = Return (None, None, Some ErrMultiTestPackges) w"
  | (test) "strings_HasSuffix name ''_test''" and "pt = None"
      and "LoadDir_loop X dir conf fset prompt ((name, pkg) # pkgs) out pt w
             = LoadDir_loop X dir conf fset prompt pkgs out (Some pkg) w"
  | (multi) p where "\<not> strings_HasSuffix name ''_test''" and "out = Some p"
      and "LoadDir_loop X dir conf fset prompt ((name, pkg) # pkgs) out pt w
             = Return (None, None, Some ErrMultiPackges) w"
  | (skip) "\<not> strings_HasSuffix name ''_test''" and "out = None" and "Files pkg = []"
      and "LoadDir_loop X dir conf fset prompt ((name, pkg) # pkgs) out pt w
             = LoadDir_loop X dir conf fset prompt pkgs out pt w"
  | (index) "\<not> strings_HasSuffix name ''_test''" and "out = None" and "Files pkg \<noteq> []"
      and "prompt = Some []"
      and "LoadDir_loop X dir conf fset prompt ((name, pkg) # pkgs) out pt w
             = Panicked IndexOutOfRange"
  | (failed) po e w2 where "\<not> strings_HasSuffix name ''_test''" and "out = None"
      and "Files pkg \<noteq> []" and "NewPackage X (compiled w) pkg = (po, Some e)"
      and "compiled w2 = compiled w @ [(LoadDir_out, pkg, po, Some e)]"
      and "saved w2 = saved w" and "mem w2 = mem w"
      and "LoadDir_loop X dir conf fset prompt ((name, pkg) # pkgs) out pt w
             = (if IgnoreNotatedError conf then
                  (case ignNotatedErrs (Some e) pkg fset of
                     Inl p \<Rightarrow> Panicked p
                   | Inr err \<Rightarrow> Return (po, None, err) w2)
                else Return (po, None, Some e) w2)"
  | (compiled) po w2 where "\<not> strings_HasSuffix name ''_test''" and "out = None"
      and "Files pkg \<noteq> []" and "NewPackage X (compiled w) pkg = (po, None)"
      and "compiled w2 = compiled w @ [(LoadDir_out, pkg, po, None)]"
      and "saved w2 = saved w" and "mem w2 = mem w"
      and "LoadDir_loop X dir conf fset prompt ((name, pkg) # pkgs) out pt w
             = LoadDir_loop X dir conf fset prompt pkgs po pt w2"
proof (cases "strings_HasSuffix name ''_test''")
  case True
  then show ?thesis using multi_test test by (cases pt) simp_all
next
  case notest: False
  show ?thesis
  proof (cases out)
    case (Some p)
    with notest show ?thesis using multi by simp
  next
    case None
    show ?thesis
    proof (cases "Files pkg = []")
      case True
      with notest None show ?thesis using skip by simp
    next
      case nonempty: False
      show ?thesis
      proof (cases "prompt = Some []")
        case True
        with notest None nonempty show ?thesis using index by simp
      next
        case False
        obtain po eo where r: "NewPackage X (compiled w) pkg = (po, eo)" by fastforce
        from LoadDir_loop_compile_step[OF notest None nonempty False r, of dir conf fset pkgs pt]
        obtain w2 where w2: "compiled w2 = compiled w @ [(LoadDir_out, pkg, po, eo)]"
          "saved w2 = saved w" "mem w2 = mem w"
          "LoadDir_loop X dir conf fset prompt ((name, pkg) # pkgs) out pt w =
             (case eo of
                Some e \<Rightarrow>
                  (if IgnoreNotatedError conf then
                     (case ignNotatedErrs (Some e) pkg fset of
                        Inl p \<Rightarrow> Panicked p
                      | Inr err \<Rightarrow> Return (po, None, err) w2)
                   else Return (po, None, Some e) w2)
              | None \<Rightarrow> LoadDir_loop X dir conf fset prompt pkgs po pt w2)"
          by blast
        show ?thesis
        proof (cases eo)
          case None' : None
          show ?thesis
            by (rule compiled[OF notest None nonempty]) (use r w2 None' in simp_all)
        next
          case (Some e)
          show ?thesis
            by (rule failed[OF notest None nonempty]) (use r w2 Some in simp_all)
        qed
      qed
    qed
  qed
qed

lemma LoadDir_loop_Return_log:
  "LoadDir_loop X dir conf fset prompt pkgs out pt w = Return res w' \<Longrightarrow>
   \<exists>cs. list_all compile_ok cs \<and>
     ((compiled w' = compiled w @ cs \<and>
       (res = (None, None, Some ErrMultiPackges) \<or> res = (None, None, Some ErrMultiTestPackges))) \<or>
      (\<exists>pkg po e e'. compiled w' = compiled w @ cs @ [(LoadDir_out, pkg, po, Some e)] \<and>
         res = (po, None, e') \<and>
         (if IgnoreNotatedError conf then ignNotatedErrs (Some e) pkg fset = Inr e'
          else e' = Some e)))"
proof (induction pkgs arbitrary: out pt w)
  case Nil
  then show ?case by simp
next
  case (Cons a pkgs)
  obtain name pkg where a: "a = (name, pkg)" by (cases a)
  note prem = Cons.prems[unfolded a]
  show ?case
  proof (cases rule: LoadDir_loop_step_cases[of name pt X dir conf fset prompt pkg pkgs out w])
    case (multi_test t)
    with prem show ?thesis by (intro exI[of _ "[]"]) simp
  next
    case test
    with prem have "LoadDir_loop X dir conf fset prompt pkgs out (Some pkg) w = Return res w'" by simp
    then show ?thesis by (rule Cons.IH)
  next
    case (multi p)
    with prem show ?thesis by (intro exI[of _ "[]"]) simp
  next
    case skip
    with prem have "LoadDir_loop X dir conf fset prompt pkgs out pt w = Return res w'" by simp
    then show ?thesis by (rule Cons.IH)
  next
    case index
    with prem show ?thesis by simp
  next
    case (failed po e w2)
    with prem show ?thesis
      by (intro exI[of _ "[]"]) (auto split: if_splits sum.splits)
  next
    case (compiled po w2)
    with prem have "LoadDir_loop X dir conf fset prompt pkgs po pt w2 = Return res w'" by simp
    from Cons.IH[OF this] obtain cs where cs: "list_all compile_ok cs"
      "(compiled w' = compiled w2 @ cs \<and>
         (res = (None, None, Some ErrMultiPackges) \<or> res = (None, None, Some ErrMultiTestPackges))) \<or>
       (\<exists>pkg po e e'. compiled w' = compiled w2 @ cs @ [(LoadDir_out, pkg, po, Some e)] \<and>
         res = (po, None, e') \<and>
         (if IgnoreNotatedError conf then ignNotatedErrs (Some e) pkg fset = Inr e'
          else e' = Some e))" by blast
    show ?thesis
      by (rule exI[of _ "(LoadDir_out, pkg, po, None) # cs"]) (use cs compiled(5) in auto)
  qed
qed

lemma LoadDir_loop_Fallthrough_log:
  "LoadDir_loop X dir conf fset prompt pkgs out pt w = Fallthrough out' pt' w' \<Longrightarrow>
   \<exists>cs. list_all compile_ok cs \<and> compiled w' = compiled w @ cs \<and>
     (out' = out \<or> (\<exists>pkg. (LoadDir_out, pkg, out', None) \<in> set cs))"
proof (induction pkgs arbitrary: out pt w)
  case Nil
  then show ?case by simp
next
  case (Cons a pkgs)
  obtain name pkg where a: "a = (name, pkg)" by (cases a)
  note prem = Cons.prems[unfolded a]
  show ?case
  proof (cases rule: LoadDir_loop_step_cases[of name pt X dir conf fset prompt pkg pkgs out w])
    case (multi_test t)
    with prem show ?thesis by simp
  next
    case test
    with prem have "LoadDir_loop X dir conf fset prompt pkgs out (Some pkg) w = Fallthrough out' pt' w'" by simp
    then show ?thesis by (rule Cons.IH)
  next
    case (multi p)
    with prem show ?thesis by simp
  next
    case skip
    with prem have "LoadDir_loop X dir conf fset prompt pkgs out pt w = Fallthrough out' pt' w'" by simp
    then show ?thesis by (rule Cons.IH)
  next
    case index
    with prem show ?thesis by simp
  next
    case (failed po e w2)
    with prem show ?thesis by (auto split: if_splits sum.splits)
  next
    case (compiled po w2)
    with prem have "LoadDir_loop X dir conf fset prompt pkgs po pt w2 = Fallthrough out' pt' w'"
      by simp
    from Cons.IH[OF this] obtain cs where cs: "list_all compile_ok cs"
      "compiled w' = compiled w2 @ cs"
      "out' = po \<or> (\<exists>pkg. (LoadDir_out, pkg, out', None) \<in> set cs)" by blast
    show ?thesis
      by (rule exI[of _ "(LoadDir_out, pkg, po, None) # cs"]) (use cs compiled(5) in auto)
  qed
qed

lemma LoadDir_loop_frame:
  "LoadDir_loop X dir conf fset prompt pkgs out pt w = Return res w' \<or>
   LoadDir_loop X dir conf fset prompt pkgs out pt w = Fallthrough out' pt' w' \<Longrightarrow>
   saved w' = saved w \<and> mem w' = mem w"
proof (induction pkgs arbitrary: out pt w)
  case Nil
  then show ?case by simp
next
  case (Cons a pkgs)
  obtain name pkg where a: "a = (name, pkg)" by (cases a)
  note prem = Cons.prems[unfolded a]
  show ?case
  proof (cases rule: LoadDir_loop_step_cases[of name pt X dir conf fset prompt pkg pkgs out w])
    case (multi_test t)
    with prem show ?thesis by simp
  next
    case test
    with prem have "LoadDir_loop X dir conf fset prompt pkgs out (Some pkg) w = Return res w' \<or>
      LoadDir_loop X dir conf fset prompt pkgs out (Some pkg) w = Fallthrough out' pt' w'" by simp
    then show ?thesis by (rule Cons.IH)
  next
    case (multi p)
    with prem show ?thesis by simp
  next
    case skip
    with prem have "LoadDir_loop X dir conf fset prompt pkgs out pt w = Return res w' \<or>
      LoadDir_loop X dir conf fset prompt pkgs out pt w = Fallthrough out' pt' w'" by simp
    then show ?thesis by (rule Cons.IH)
  next
    case index
    with prem show ?thesis by simp
  next
    case (failed po e w2)
    with prem show ?thesis by (auto split: if_splits sum.splits)
  next
    case (compiled po w2)
    with prem have "LoadDir_loop X dir conf fset prompt pkgs po pt w2 = Return res w' \<or>
       LoadDir_loop X dir conf fset prompt pkgs po pt w2 = Fallthrough out' pt' w'"
      by simp
    from Cons.IH[OF this] compiled(6,7) show ?thesis by simp
  qed
qed

subsection \<open>The parts of LoadDir and LoadFiles\<close>

lemma LoadDir_rest_cases:
  assumes "LoadDir_rest X md gop conf gen out pt w = Inr (res, w')"
  obtains
    (notfound) "out = None" and "res = (None, None, Some ErrNotFound)" and "w' = w"
  | (notest) p where "out = Some p" and "\<not> gen \<or> pt = None" and "res = (out, None, None)"
      and "afterLoad X md gop out None conf w = Inr w'"
  | (test) p t tp te where "out = Some p" and "gen" and "pt = Some t"
      and "NewPackage X (compiled w) t = (tp, te)" and "res = (out, tp, te)"
      and "afterLoad X md gop out tp conf
             (w\<lparr>compiled := compiled w @ [(LoadDir_test, t, tp, te)]\<rparr>) = Inr w'"
proof (cases out)
  case None
  with assms notfound show ?thesis by (simp add: LoadDir_rest_def)
next
  case (Some p)
  show ?thesis
  proof (cases "gen \<and> pt \<noteq> None")
    case False
    with assms Some have "res = (out, None, None) \<and> afterLoad X md gop out None conf w = Inr w'"
      by (cases pt) (auto simp: LoadDir_rest_def split: sum.splits)
    with notest[OF Some] False show ?thesis by blast
  next
    case True
    then obtain t where t: "pt = Some t" and g: gen by auto
    obtain tp te where r: "NewPackage X (compiled w) t = (tp, te)" by fastforce
    from assms Some t g r have "res = (out, tp, te) \<and> afterLoad X md gop out tp conf
             (w\<lparr>compiled := compiled w @ [(LoadDir_test, t, tp, te)]\<rparr>) = Inr w'"
      by (auto simp: LoadDir_rest_def split: sum.splits)
    with test[OF Some g t r] show ?thesis by blast
  qed
qed

lemma LoadDir_compile_cases:
  assumes "LoadDir_compile X dir conf md fset pkgs gen prompt w = Inr (res, w')"
  obtains
    (return) "LoadDir_loop X dir conf fset prompt pkgs None None w = Return res w'"
  | (rest) out pt w1 where
      "LoadDir_loop X dir conf fset prompt pkgs None None w = Fallthrough out pt w1"
      and "LoadDir_rest X md (conf_Gop X conf) conf gen out pt w1 = Inr (res, w')"
  using assms unfolding LoadDir_compile_def Let_def
  by (cases "LoadDir_loop X dir conf fset prompt pkgs None None w") auto

lemma LoadDir_cases:
  assumes "LoadDir X dir conf0 gen prompt w = Inr (res, w')"
  obtains
    (early) e where "res = (None, None, Some e)" and "w' = w"
  | (compile) md where "conf_Mod X dir (conf_or_new conf0) = (Some md, None)"
      and "snd (snd (ParseDirEx X (conf_Fset (conf_or_new conf0)) dir)) = None"
      and "LoadDir_compile X dir (conf_or_new conf0) md
             (fst (ParseDirEx X (conf_Fset (conf_or_new conf0)) dir))
             (fst (snd (ParseDirEx X (conf_Fset (conf_or_new conf0)) dir))) gen prompt w
           = Inr (res, w')"
proof -
  obtain mo eo where m: "conf_Mod X dir (conf_or_new conf0) = (mo, eo)" by fastforce
  obtain fset pkgs pe where p: "ParseDirEx X (conf_Fset (conf_or_new conf0)) dir = (fset, pkgs, pe)"
    by (metis prod_cases3)
  show ?thesis
  proof (cases eo)
    case (Some e)
    with assms m early show ?thesis by (cases mo) (auto simp: LoadDir_def Let_def)
  next
    case None
    show ?thesis
    proof (cases mo)
      case None' : None
      with assms m None show ?thesis by (simp add: LoadDir_def Let_def)
    next
      case (Some md)
      show ?thesis
      proof (cases "pe = None \<and> pkgs \<noteq> []")
        case True
        with assms m p None Some compile[of md] show ?thesis
          by (auto simp: LoadDir_def Let_def)
      next
        case False
        with assms m p None Some early show ?thesis
          by (cases pe) (auto simp: LoadDir_def Let_def split: if_splits)
      qed
    qed
  qed
qed

text \<open>
  After the loop, with a production package compiled, \<open>LoadDir\<close> always returns: the
  hook does not panic on a package that is not nil, whatever the test compile gave.
\<close>

lemma afterLoad_returns: "\<exists>w'. afterLoad X md gop (Some p) test conf w = Inr w'"
  by (cases "Path md = gopMod X") (simp_all add: afterLoad_self_hosted afterLoad_Some)

lemma LoadDir_rest_returns:
  "\<exists>test err w'. LoadDir_rest X md gop conf gen (Some p) pt w = Inr ((Some p, test, err), w')"
proof (cases "gen \<and> pt \<noteq> None")
  case False
  obtain w' where "afterLoad X md gop (Some p) None conf w = Inr w'"
    using afterLoad_returns by blast
  with False show ?thesis by (cases pt) (simp_all add: LoadDir_rest_def)
next
  case True
  then obtain t where t: "pt = Some t" and g: gen by auto
  obtain tp te where r: "NewPackage X (compiled w) t = (tp, te)" by fastforce
  obtain w' where "afterLoad X md gop (Some p) tp conf
      (w\<lparr>compiled := compiled w @ [(LoadDir_test, t, tp, te)]\<rparr>) = Inr w'"
    using afterLoad_returns by blast
  with t g r show ?thesis by (simp add: LoadDir_rest_def)
qed

lemma compile_ok_set:
  assumes "list_all compile_ok cs"
  shows "(site, pkg, po, Some e) \<notin> set cs" and "(LoadDir_test, pkg, po, eo) \<notin> set cs"
  using assms by (auto simp: list_all_iff)

text \<open>
  C7. In \<^verbatim>\<open>LoadDir\<close>, a failed compile of a production package is the last compile of
  the call: every compile before it is a production compile that succeeded, no test
  package is compiled, and the call returns what the compiler returned for the
  package, no test package and the error (reconciled when \<^verbatim>\<open>IgnoreNotatedError\<close>
  is set). A failed compile of the test package is returned with the production package,
  which is not nil and is the result of a successful production compile of this call.
\<close>

theorem LoadDir_compile_failures:
  assumes "LoadDir X dir conf0 genTestPkg promptGenGo w = Inr ((out, test, err), w')"
  shows "\<exists>cs. compiled w' = compiled w @ cs \<and>
     (\<forall>pkg po e. (LoadDir_out, pkg, po, Some e) \<in> set cs \<longrightarrow>
        (\<exists>cs0. cs = cs0 @ [(LoadDir_out, pkg, po, Some e)] \<and> list_all compile_ok cs0) \<and>
        out = po \<and> test = None \<and>
        (if IgnoreNotatedError (conf_or_new conf0)
         then ignNotatedErrs (Some e) pkg
                (fst (ParseDirEx X (conf_Fset (conf_or_new conf0)) dir)) = Inr err
         else err = Some e)) \<and>
     (\<forall>pkg tp e. (LoadDir_test, pkg, tp, Some e) \<in> set cs \<longrightarrow>
        out \<noteq> None \<and> test = tp \<and> err = Some e \<and>
        (\<exists>p. (LoadDir_out, p, out, None) \<in> set cs))"
  using assms
proof (cases rule: LoadDir_cases)
  case (early e)
  then show ?thesis by simp
next
  case (compile md)
  let ?conf = "conf_or_new conf0"
  let ?fset = "fst (ParseDirEx X (conf_Fset ?conf) dir)"
  from compile(3) show ?thesis
  proof (cases rule: LoadDir_compile_cases)
    case return
    from LoadDir_loop_Return_log[OF return] obtain cs where ok: "list_all compile_ok cs"
      and d: "(compiled w' = compiled w @ cs \<and>
         ((out, test, err) = (None, None, Some ErrMultiPackges) \<or>
          (out, test, err) = (None, None, Some ErrMultiTestPackges))) \<or>
        (\<exists>pkg po e e'. compiled w' = compiled w @ cs @ [(LoadDir_out, pkg, po, Some e)] \<and>
           (out, test, err) = (po, None, e') \<and>
           (if IgnoreNotatedError ?conf then ignNotatedErrs (Some e) pkg ?fset = Inr e'
            else e' = Some e))" by blast
    from d show ?thesis
    proof
      assume "compiled w' = compiled w @ cs \<and>
         ((out, test, err) = (None, None, Some ErrMultiPackges) \<or>
          (out, test, err) = (None, None, Some ErrMultiTestPackges))"
      then have "compiled w' = compiled w @ cs" by simp
      then show ?thesis using compile_ok_set[OF ok] by (intro exI[of _ cs]) blast
    next
      assume "\<exists>pkg po e e'. compiled w' = compiled w @ cs @ [(LoadDir_out, pkg, po, Some e)] \<and>
           (out, test, err) = (po, None, e') \<and>
           (if IgnoreNotatedError ?conf then ignNotatedErrs (Some e) pkg ?fset = Inr e'
            else e' = Some e)"
      then obtain pkg e where c: "compiled w' = compiled w @ cs @ [(LoadDir_out, pkg, out, Some e)]"
        and t: "test = None"
        and e: "if IgnoreNotatedError ?conf then ignNotatedErrs (Some e) pkg ?fset = Inr err
            else err = Some e" by auto
      show ?thesis
        using compile_ok_set[OF ok] ok c t e
        by (intro exI[of _ "cs @ [(LoadDir_out, pkg, out, Some e)]"]) auto
    qed
  next
    case (rest o' pt w1)
    from LoadDir_loop_Fallthrough_log[OF rest(1)] obtain cs where ok: "list_all compile_ok cs"
      and c1: "compiled w1 = compiled w @ cs"
      and o: "o' = None \<or> (\<exists>pkg. (LoadDir_out, pkg, o', None) \<in> set cs)" by blast
    from rest(2) show ?thesis
    proof (cases rule: LoadDir_rest_cases)
      case notfound
      then show ?thesis using compile_ok_set[OF ok] c1 by (intro exI[of _ cs]) blast
    next
      case (notest p)
      from afterLoad_effects[OF notest(4)] have "compiled w' = compiled w1" by simp
      then show ?thesis using compile_ok_set[OF ok] c1 by (intro exI[of _ cs]) auto
    next
      case (test p t tp te)
      from afterLoad_effects[OF test(6)]
      have c: "compiled w' = compiled w @ cs @ [(LoadDir_test, t, tp, te)]" by (simp add: c1)
      from test(1,5) o have o2: "\<exists>pkg. (LoadDir_out, pkg, out, None) \<in> set cs" by auto
      show ?thesis
        using compile_ok_set[OF ok] c o2 test(1,5)
        by (intro exI[of _ "cs @ [(LoadDir_test, t, tp, te)]"]) auto
    qed
  qed
qed

lemma ex_run_prod_fails: "LoadDir ex_X_prod_fails ''d'' (Some ex_conf) True None ex_world =
   Inr ((Some ex_out_test, None, Some ErrIgnoreNotated),
        ex_world\<lparr>compiled := [(LoadDir_out, ex_test, Some ex_out_test, Some ex_err)]\<rparr>)"
  by (simp add: ex_X_prod_fails_def eval_defs ex_defs)

lemma ex_run_test_fails: "LoadDir ex_X ''d'' (Some ex_conf) True None ex_world =
   Inr ((Some ex_out, Some ex_out_test, Some ex_err),
        ex_world\<lparr>compiled := [(LoadDir_out, ex_main, Some ex_out, None),
                                (LoadDir_test, ex_test, Some ex_out_test, Some ex_err)],
                  mem := (mem ex_world)(0 := 1),
                  saved := [(''gop1.1'', 3, Some ex_save_err)]\<rparr>)"
  by (simp add: eval_defs ex_defs)

theorem LoadDir_compile_failures_witness:
  "(\<exists>out test err w'.
      LoadDir ex_X_prod_fails ''d'' (Some ex_conf) True None ex_world = Inr ((out, test, err), w') \<and>
      (LoadDir_out, ex_test, Some ex_out_test, Some ex_err) \<in> set (compiled w') \<and>
      out = Some ex_out_test \<and> test = None \<and> err = Some ErrIgnoreNotated) \<and>
   (\<exists>out test err w'.
      LoadDir ex_X ''d'' (Some ex_conf) True None ex_world = Inr ((out, test, err), w') \<and>
      (LoadDir_test, ex_test, Some ex_out_test, Some ex_err) \<in> set (compiled w') \<and>
      out \<noteq> None \<and> test = Some ex_out_test \<and> err = Some ex_err \<and>
      (\<exists>p. (LoadDir_out, p, out, None) \<in> set (compiled w')))"
proof -
  have e: "compiled ex_world = []" by (simp add: ex_world_def)
  obtain out test err w' where
    a: "LoadDir ex_X_prod_fails ''d'' (Some ex_conf) True None ex_world = Inr ((out, test, err), w')"
    and ca: "compiled w' = [(LoadDir_out, ex_test, Some ex_out_test, Some ex_err)]"
    and ea: "err = Some ErrIgnoreNotated"
    using ex_run_prod_fails by simp
  from LoadDir_compile_failures[OF a] ca e
  have "out = Some ex_out_test \<and> test = None" by auto
  with a ca ea have A: "\<exists>out test err w'.
      LoadDir ex_X_prod_fails ''d'' (Some ex_conf) True None ex_world = Inr ((out, test, err), w') \<and>
      (LoadDir_out, ex_test, Some ex_out_test, Some ex_err) \<in> set (compiled w') \<and>
      out = Some ex_out_test \<and> test = None \<and> err = Some ErrIgnoreNotated" by auto
  obtain out2 test2 err2 w2 where
    b: "LoadDir ex_X ''d'' (Some ex_conf) True None ex_world = Inr ((out2, test2, err2), w2)"
    and cb: "compiled w2 = [(LoadDir_out, ex_main, Some ex_out, None),
                                (LoadDir_test, ex_test, Some ex_out_test, Some ex_err)]"
    using ex_run_test_fails by simp
  from LoadDir_compile_failures[OF b] cb e
  have "out2 \<noteq> None \<and> test2 = Some ex_out_test \<and> err2 = Some ex_err \<and>
      (\<exists>p. (LoadDir_out, p, out2, None) \<in> set (compiled w2))" by auto
  with b cb have B: "\<exists>out test err w'.
      LoadDir ex_X ''d'' (Some ex_conf) True None ex_world = Inr ((out, test, err), w') \<and>
      (LoadDir_test, ex_test, Some ex_out_test, Some ex_err) \<in> set (compiled w') \<and>
      out \<noteq> None \<and> test = Some ex_out_test \<and> err = Some ex_err \<and>
      (\<exists>p. (LoadDir_out, p, out, None) \<in> set (compiled w'))" by auto
  from A B show ?thesis by blast
qed

lemma LoadFiles_compile_cases:
  assumes "LoadFiles_compile X conf md fset pkg w = Inr (res, w')"
  obtains out err0 err where "NewPackage X (compiled w) pkg = (out, err0)"
    and "(case err0 of
            Some e \<Rightarrow> if IgnoreNotatedError conf then ignNotatedErrs (Some e) pkg fset
                      else Inr (Some e)
          | None \<Rightarrow> Inr None) = Inr err"
    and "afterLoad X md (conf_Gop X conf) out None conf
           (w\<lparr>compiled := compiled w @ [(LoadFiles_out, pkg, out, err0)]\<rparr>) = Inr w'"
    and "res = (out, err)"
proof -
  obtain out err0 where r: "NewPackage X (compiled w) pkg = (out, err0)" by fastforce
  show ?thesis
    using assms r that[OF r] unfolding LoadFiles_compile_def Let_def
    by (auto split: sum.splits)
qed

lemma LoadFiles_cases:
  assumes "LoadFiles X dir files conf0 w = Inr (res, w')"
  obtains
    (early) e where "res = (None, Some e)" and "w' = w"
  | (compile) md fset name pkg where "conf_Mod X dir (conf_or_new conf0) = (Some md, None)"
      and "ParseEntries X (conf_Fset (conf_or_new conf0)) files = (fset, [(name, pkg)], None)"
      and "LoadFiles_compile X (conf_or_new conf0) md fset pkg w = Inr (res, w')"
proof -
  obtain mo eo where m: "conf_Mod X dir (conf_or_new conf0) = (mo, eo)" by fastforce
  obtain fset pkgs pe where p: "ParseEntries X (conf_Fset (conf_or_new conf0)) files = (fset, pkgs, pe)"
    by (metis prod_cases3)
  show ?thesis
  proof (cases eo)
    case (Some e)
    with assms m early show ?thesis by (cases mo) (auto simp: LoadFiles_def Let_def)
  next
    case None
    show ?thesis
    proof (cases mo)
      case None' : None
      with assms m None show ?thesis by (simp add: LoadFiles_def Let_def)
    next
      case (Some md)
      show ?thesis
      proof (cases "pe = None \<and> length pkgs = 1")
        case True
        then obtain name pkg where "pkgs = [(name, pkg)]"
          by (cases pkgs) auto
        with True assms m p None Some compile[of md fset name pkg] show ?thesis
          by (auto simp: LoadFiles_def Let_def)
      next
        case False
        with assms m p None Some early show ?thesis
          by (cases pe) (auto simp: LoadFiles_def Let_def split: if_splits)
      qed
    qed
  qed
qed

lemma LoadDir_frame:
  assumes "LoadDir X dir conf0 gen prompt w = Inr (res, w')"
  shows "(\<forall>a. GopDeps (conf_or_new conf0) \<noteq> Some a \<longrightarrow> mem w' a = mem w a) \<and>
     (saved w' = saved w \<or>
      (\<exists>md g fl r. conf_Mod X dir (conf_or_new conf0) = (Some md, None) \<and>
         saved w' = saved w @ [(g, fl, r)] \<and> fl \<noteq> 0 \<and> HasModfile md \<and>
         \<not> DontUpdateGoMod (conf_or_new conf0)))"
  using assms
proof (cases rule: LoadDir_cases)
  case (early e)
  then show ?thesis by simp
next
  case (compile md)
  from compile(3) show ?thesis
  proof (cases rule: LoadDir_compile_cases)
    case return
    from LoadDir_loop_frame[OF disjI1, OF return] show ?thesis by simp
  next
    case (rest o' pt w1)
    from LoadDir_loop_frame[OF disjI2, OF rest(1)]
    have f: "saved w1 = saved w" "mem w1 = mem w" by simp_all
    from rest(2) show ?thesis
    proof (cases rule: LoadDir_rest_cases)
      case notfound
      with f show ?thesis by simp
    next
      case (notest p)
      from afterLoad_effects[OF notest(4)] f compile(1) show ?thesis by auto
    next
      case (test p t tp te)
      from afterLoad_effects[OF test(6)] f compile(1) show ?thesis by auto
    qed
  qed
qed

lemma LoadFiles_frame:
  assumes "LoadFiles X dir files conf0 w = Inr (res, w')"
  shows "(\<forall>a. GopDeps (conf_or_new conf0) \<noteq> Some a \<longrightarrow> mem w' a = mem w a) \<and>
     (saved w' = saved w \<or>
      (\<exists>md g fl r. conf_Mod X dir (conf_or_new conf0) = (Some md, None) \<and>
         saved w' = saved w @ [(g, fl, r)] \<and> fl \<noteq> 0 \<and> HasModfile md \<and>
         \<not> DontUpdateGoMod (conf_or_new conf0)))"
  using assms
proof (cases rule: LoadFiles_cases)
  case (early e)
  then show ?thesis by simp
next
  case (compile md fset name pkg)
  from compile(3) show ?thesis
  proof (cases rule: LoadFiles_compile_cases)
    case (1 out err0 err)
    from afterLoad_effects[OF 1(3)] compile(1) show ?thesis by auto
  qed
qed

text \<open>
  C9. The post-load hook does nothing when the module path is \<open>gopMod\<close>. It leaves the
  compile log, the output and every int but the one \<^verbatim>\<open>GopDeps\<close> points to as they
  were, and it calls \<^verbatim>\<open>SaveWithGopMod\<close> exactly when the module is not the toolchain's
  own, has a manifest file, \<^verbatim>\<open>DontUpdateGoMod\<close> is false and the OR of the flags of the
  production and the test package is not zero; the call is then made once, with that
  bitmask. A whole \<^verbatim>\<open>LoadDir\<close> or \<^verbatim>\<open>LoadFiles\<close> writes the manifest at most once, under
  the same conditions, and writes no int but the one \<^verbatim>\<open>GopDeps\<close> points to.
\<close>

theorem afterLoad_only_durable_mutation:
  "(Path md = gopMod X \<longrightarrow> afterLoad X md gop out test conf w = Inr w) \<and>
   (afterLoad X md gop out test conf w = Inr w' \<longrightarrow>
      compiled w' = compiled w \<and> stderr w' = stderr w \<and>
      (\<forall>a. GopDeps conf \<noteq> Some a \<longrightarrow> mem w' a = mem w a) \<and>
      (saved w' \<noteq> saved w \<longleftrightarrow>
         Path md \<noteq> gopMod X \<and> HasModfile md \<and> \<not> DontUpdateGoMod conf \<and>
         (\<exists>p. out = Some p \<and> ForEachFile_flags p OR test_flags test \<noteq> 0)) \<and>
      (saved w' \<noteq> saved w \<longrightarrow>
         (\<exists>p. out = Some p \<and>
            saved w' = saved w @ [(gop, ForEachFile_flags p OR test_flags test,
                SaveWithGopMod X gop (ForEachFile_flags p OR test_flags test))]))) \<and>
   (LoadDir X dir conf0 genTestPkg promptGenGo w = Inr (res, w1) \<longrightarrow>
      (\<forall>a. GopDeps (conf_or_new conf0) \<noteq> Some a \<longrightarrow> mem w1 a = mem w a) \<and>
      (saved w1 = saved w \<or>
       (\<exists>md g fl r. conf_Mod X dir (conf_or_new conf0) = (Some md, None) \<and>
          saved w1 = saved w @ [(g, fl, r)] \<and> fl \<noteq> 0 \<and> HasModfile md \<and>
          \<not> DontUpdateGoMod (conf_or_new conf0)))) \<and>
   (LoadFiles X dir files conf0 w = Inr (res2, w2) \<longrightarrow>
      (\<forall>a. GopDeps (conf_or_new conf0) \<noteq> Some a \<longrightarrow> mem w2 a = mem w a) \<and>
      (saved w2 = saved w \<or>
       (\<exists>md g fl r. conf_Mod X dir (conf_or_new conf0) = (Some md, None) \<and>
          saved w2 = saved w @ [(g, fl, r)] \<and> fl \<noteq> 0 \<and> HasModfile md \<and>
          \<not> DontUpdateGoMod (conf_or_new conf0))))"
proof (intro conjI impI)
  assume "Path md = gopMod X"
  then show "afterLoad X md gop out test conf w = Inr w" by (rule afterLoad_self_hosted)
next
  assume a: "afterLoad X md gop out test conf w = Inr w'"
  from afterLoad_effects[OF a]
  show "compiled w' = compiled w" "stderr w' = stderr w"
    "\<forall>a. GopDeps conf \<noteq> Some a \<longrightarrow> mem w' a = mem w a" by simp_all
  show "saved w' \<noteq> saved w \<longleftrightarrow>
         Path md \<noteq> gopMod X \<and> HasModfile md \<and> \<not> DontUpdateGoMod conf \<and>
         (\<exists>p. out = Some p \<and> ForEachFile_flags p OR test_flags test \<noteq> 0)"
  proof (cases "Path md = gopMod X")
    case True
    with a show ?thesis by (simp add: afterLoad_self_hosted)
  next
    case False
    show ?thesis
    proof (cases out)
      case None
      with a False show ?thesis by (auto simp: afterLoad_None split: if_splits)
    next
      case (Some p)
      with a False show ?thesis
        by (cases "GopDeps conf") (auto simp: afterLoad_Some Let_def split: if_splits)
    qed
  qed
  assume "saved w' \<noteq> saved w"
  with afterLoad_effects[OF a]
  show "\<exists>p. out = Some p \<and>
            saved w' = saved w @ [(gop, ForEachFile_flags p OR test_flags test,
                SaveWithGopMod X gop (ForEachFile_flags p OR test_flags test))]" by auto
next
  assume "LoadDir X dir conf0 genTestPkg promptGenGo w = Inr (res, w1)"
  from LoadDir_frame[OF this]
  show "\<forall>a. GopDeps (conf_or_new conf0) \<noteq> Some a \<longrightarrow> mem w1 a = mem w a"
    "saved w1 = saved w \<or>
       (\<exists>md g fl r. conf_Mod X dir (conf_or_new conf0) = (Some md, None) \<and>
          saved w1 = saved w @ [(g, fl, r)] \<and> fl \<noteq> 0 \<and> HasModfile md \<and>
          \<not> DontUpdateGoMod (conf_or_new conf0))" by simp_all
next
  assume "LoadFiles X dir files conf0 w = Inr (res2, w2)"
  from LoadFiles_frame[OF this]
  show "\<forall>a. GopDeps (conf_or_new conf0) \<noteq> Some a \<longrightarrow> mem w2 a = mem w a"
    "saved w2 = saved w \<or>
       (\<exists>md g fl r. conf_Mod X dir (conf_or_new conf0) = (Some md, None) \<and>
          saved w2 = saved w @ [(g, fl, r)] \<and> fl \<noteq> 0 \<and> HasModfile md \<and>
          \<not> DontUpdateGoMod (conf_or_new conf0))" by simp_all
qed

lemma ex_run_files: "LoadFiles ex_X ''d'' [''a.gop''] (Some ex_conf) ex_world =
   Inr ((Some ex_out, None),
        ex_world\<lparr>compiled := [(LoadFiles_out, ex_main, Some ex_out, None)],
                  mem := (mem ex_world)(0 := 1),
                  saved := [(''gop1.1'', 1, Some ex_save_err)]\<rparr>)"
  by (simp add: eval_defs ex_defs)

lemma ex_flags: "ForEachFile_flags ex_out = 1" "test_flags (Some ex_out_test) = 2"
  "test_flags None = 0"
  by (simp_all add: ForEachFile_flags_def test_flags_def ex_defs)

lemma ex_hook: "afterLoad ex_X ex_mod ''gop1.1'' (Some ex_out) (Some ex_out_test) ex_conf ex_world =
   Inr (ex_world\<lparr>mem := (mem ex_world)(0 := 1), saved := [(''gop1.1'', 3, Some ex_save_err)]\<rparr>)"
  by (simp add: eval_defs ex_defs)

theorem afterLoad_only_durable_mutation_witness:
  "afterLoad ex_X (ex_mod\<lparr>Path := gopMod ex_X\<rparr>) ''gop1.1'' (Some ex_out) (Some ex_out_test)
     ex_conf ex_world = Inr ex_world \<and>
   (\<exists>w'. afterLoad ex_X ex_mod ''gop1.1'' (Some ex_out) (Some ex_out_test) ex_conf ex_world = Inr w' \<and>
      compiled w' = compiled ex_world \<and> stderr w' = stderr ex_world \<and> mem w' 1 = mem ex_world 1 \<and>
      saved w' \<noteq> saved ex_world \<and>
      saved w' = saved ex_world @ [(''gop1.1'', 3, Some ex_save_err)]) \<and>
   (\<exists>res w'. LoadDir ex_X ''d'' (Some ex_conf) True None ex_world = Inr (res, w') \<and>
      mem w' 1 = mem ex_world 1 \<and> length (saved w') \<le> length (saved ex_world) + 1) \<and>
   (\<exists>res w'. LoadFiles ex_X ''d'' [''a.gop''] (Some ex_conf) ex_world = Inr (res, w') \<and>
      mem w' 1 = mem ex_world 1 \<and> length (saved w') \<le> length (saved ex_world) + 1)"
proof -
  note T = afterLoad_only_durable_mutation
  have c: "GopDeps (conf_or_new (Some ex_conf)) = Some 0" "GopDeps ex_conf = Some 0"
    "Path ex_mod \<noteq> gopMod ex_X" "HasModfile ex_mod" "\<not> DontUpdateGoMod ex_conf"
    "SaveWithGopMod ex_X = (\<lambda>g f. Some ex_save_err)"
    by (simp_all add: conf_or_new_def ex_conf_def ex_mod_def ex_X_def)
  have 1: "afterLoad ex_X (ex_mod\<lparr>Path := gopMod ex_X\<rparr>) ''gop1.1'' (Some ex_out)
     (Some ex_out_test) ex_conf ex_world = Inr ex_world"
    using T[where md = "ex_mod\<lparr>Path := gopMod ex_X\<rparr>" and X = ex_X, THEN conjunct1] by simp
  obtain w' where h: "afterLoad ex_X ex_mod ''gop1.1'' (Some ex_out) (Some ex_out_test) ex_conf
      ex_world = Inr w'" using ex_hook by simp
  have 2: "compiled w' = compiled ex_world \<and> stderr w' = stderr ex_world \<and>
      mem w' 1 = mem ex_world 1 \<and> saved w' \<noteq> saved ex_world \<and>
      saved w' = saved ex_world @ [(''gop1.1'', 3, Some ex_save_err)]"
    using T[where md = ex_mod and X = ex_X and gop = "''gop1.1''" and out = "Some ex_out"
        and test = "Some ex_out_test" and conf = ex_conf and w = ex_world and w' = w',
        THEN conjunct2, THEN conjunct1, rule_format, OF h] c
    by (simp add: ex_flags)
  obtain res wd where d: "LoadDir ex_X ''d'' (Some ex_conf) True None ex_world = Inr (res, wd)"
    using ex_run_test_fails by simp
  have 3: "mem wd 1 = mem ex_world 1 \<and> length (saved wd) \<le> length (saved ex_world) + 1"
    using T[where X = ex_X and w = ex_world and dir = "''d''" and ?conf0.0 = "Some ex_conf"
        and genTestPkg = True and promptGenGo = None and res = res and ?w1.0 = wd,
        THEN conjunct2, THEN conjunct2, THEN conjunct1, rule_format, OF d] c by auto
  obtain res2 wf where f: "LoadFiles ex_X ''d'' [''a.gop''] (Some ex_conf) ex_world = Inr (res2, wf)"
    using ex_run_files by simp
  have 4: "mem wf 1 = mem ex_world 1 \<and> length (saved wf) \<le> length (saved ex_world) + 1"
    using T[where X = ex_X and w = ex_world and dir = "''d''" and ?conf0.0 = "Some ex_conf"
        and files = "[''a.gop'']" and ?res2.0 = res2 and ?w2.0 = wf,
        THEN conjunct2, THEN conjunct2, THEN conjunct2, rule_format, OF f] c by auto
  from 1 2 3 4 h d f show ?thesis by blast
qed

subsection \<open>What the output slot receives\<close>

text \<open>
  C1, as the code has it. When the module is not the toolchain's own and \<^verbatim>\<open>GopDeps\<close>
  is supplied, the hook (which then returns) writes to the slot the OR of the flags of
  the production package alone. The flags of the test package are OR'ed in afterwards,
  for the value handed to \<^verbatim>\<open>SaveWithGopMod\<close>, which is called only when the manifest
  may be updated and that value is not zero.
\<close>

theorem afterLoad_GopDeps_production_only:
  assumes "Path md \<noteq> gopMod X" and "GopDeps conf = Some a"
  shows "\<exists>w'. afterLoad X md gop (Some p) test conf w = Inr w' \<and>
           mem w' a = ForEachFile_flags p \<and>
           saved w' =
             (if \<not> DontUpdateGoMod conf \<and> HasModfile md \<and>
                 ForEachFile_flags p OR test_flags test \<noteq> 0
              then saved w @ [(gop, ForEachFile_flags p OR test_flags test,
                     SaveWithGopMod X gop (ForEachFile_flags p OR test_flags test))]
              else saved w)"
  using assms by (simp add: afterLoad_Some Let_def)

text \<open>
  C1 as stated fails: with production flags 1, test flags 2 and \<^verbatim>\<open>GopDeps\<close>
  supplied, the slot holds 1 after the hook, not 3.
\<close>

theorem afterLoad_GopDeps_counterexample:
  "ForEachFile_flags ex_out = 1 \<and> ForEachFile_flags ex_out_test = 2 \<and> GopDeps ex_conf = Some 0 \<and>
   map_sum id (\<lambda>w. mem w 0)
     (afterLoad ex_X ex_mod ''gop1.1'' (Some ex_out) (Some ex_out_test) ex_conf ex_world) = Inr 1 \<and>
   map_sum id (\<lambda>w. mem w 0)
     (afterLoad ex_X ex_mod ''gop1.1'' (Some ex_out) (Some ex_out_test) ex_conf ex_world) \<noteq> Inr 3"
  by (simp add: eval_defs ex_defs)

theorem afterLoad_GopDeps_production_only_witness:
  "Path ex_mod \<noteq> gopMod ex_X \<and> GopDeps ex_conf = Some 0 \<and>
   ForEachFile_flags ex_out = 1 \<and> test_flags (Some ex_out_test) = 2 \<and>
   (\<exists>w'. afterLoad ex_X ex_mod ''gop1.1'' (Some ex_out) (Some ex_out_test) ex_conf ex_world = Inr w' \<and>
      mem w' 0 = 1 \<and> saved w' = [(''gop1.1'', 3, Some ex_save_err)])"
proof -
  have h1: "Path ex_mod \<noteq> gopMod ex_X" by (simp add: ex_defs)
  have h2: "GopDeps ex_conf = Some 0" by (simp add: ex_defs)
  have c: "DontUpdateGoMod ex_conf = False" "HasModfile ex_mod = True" "saved ex_world = []"
    "SaveWithGopMod ex_X = (\<lambda>g f. Some ex_save_err)"
    by (simp_all add: ex_conf_def ex_mod_def ex_world_def ex_X_def)
  show ?thesis
    using afterLoad_GopDeps_production_only [OF h1 h2, of "''gop1.1''" ex_out "Some ex_out_test" ex_world]
    by (simp add: h1 h2 ex_flags c)
qed

subsection \<open>Reconciliation of notated errors\<close>

lemma ignNotatedErrs_loop_filter:
  "\<forall>e\<in>set v. \<exists>b. isNotatedErr (Some e) pkg fset = Inr b \<Longrightarrow>
   ignNotatedErrs_loop v pkg fset ret =
     Inr (ret @ filter (\<lambda>e. isNotatedErr (Some e) pkg fset = Inr False) v)"
  by (induction v arbitrary: ret) auto

text \<open>
  C5. When the classification of every element returns, \<^verbatim>\<open>ignNotatedErrs\<close> maps an
  error list to the list of its elements that are not notated, in their order, and to
  the sentinel \<open>ErrIgnoreNotated\<close>, never nil, when none is left. It maps an error
  that is not a list to \<open>ErrIgnoreNotated\<close> when it is notated, and to itself
  otherwise.
\<close>

theorem ignNotatedErrs_reconciles:
  "((\<forall>e\<in>set v. \<exists>b. isNotatedErr (Some e) pkg fset = Inr b) \<longrightarrow>
      ignNotatedErrs (Some (ErrList v)) pkg fset =
        Inr (Some (let ret = filter (\<lambda>e. isNotatedErr (Some e) pkg fset = Inr False) v
                   in if ret = [] then ErrIgnoreNotated else ErrList ret))) \<and>
   ((\<forall>v. err \<noteq> ErrList v) \<and> isNotatedErr (Some err) pkg fset = Inr notated \<longrightarrow>
      ignNotatedErrs (Some err) pkg fset =
        Inr (Some (if notated then ErrIgnoreNotated else err)))"
proof (intro conjI impI)
  assume "\<forall>e\<in>set v. \<exists>b. isNotatedErr (Some e) pkg fset = Inr b"
  then show "ignNotatedErrs (Some (ErrList v)) pkg fset =
        Inr (Some (let ret = filter (\<lambda>e. isNotatedErr (Some e) pkg fset = Inr False) v
                   in if ret = [] then ErrIgnoreNotated else ErrList ret))"
    by (simp add: ignNotatedErrs_loop_filter Let_def)
next
  assume "(\<forall>v. err \<noteq> ErrList v) \<and> isNotatedErr (Some err) pkg fset = Inr notated"
  then show "ignNotatedErrs (Some err) pkg fset =
        Inr (Some (if notated then ErrIgnoreNotated else err))"
    by (cases err) simp_all
qed

lemma ex_notated:
  "isNotatedErr (Some ex_err) ex_test [ex_main_file, ex_test_file] = Inr True"
  "isNotatedErr (Some (CodeError 10 ''unused: x'')) ex_test [ex_main_file, ex_test_file] = Inr False"
  by (simp_all add: eval_defs ex_defs)

theorem ignNotatedErrs_reconciles_witness:
  "isNotatedErr (Some ex_err) ex_test [ex_main_file, ex_test_file] = Inr True \<and>
   isNotatedErr (Some (CodeError 10 ''unused: x'')) ex_test [ex_main_file, ex_test_file]
     = Inr False \<and>
   ignNotatedErrs (Some (ErrList [ex_err, CodeError 10 ''unused: x''])) ex_test
     [ex_main_file, ex_test_file] = Inr (Some (ErrList [CodeError 10 ''unused: x''])) \<and>
   ignNotatedErrs (Some (ErrList [ex_err])) ex_test [ex_main_file, ex_test_file]
     = Inr (Some ErrIgnoreNotated) \<and>
   ignNotatedErrs (Some ex_err) ex_test [ex_main_file, ex_test_file]
     = Inr (Some ErrIgnoreNotated) \<and>
   ignNotatedErrs (Some (CodeError 10 ''unused: x'')) ex_test [ex_main_file, ex_test_file]
     = Inr (Some (CodeError 10 ''unused: x''))"
proof -
  note T = ignNotatedErrs_reconciles[where pkg = ex_test and fset = "[ex_main_file, ex_test_file]"]
  have l: "\<forall>v. ex_err \<noteq> ErrList v" "\<forall>v. CodeError 10 ''unused: x'' \<noteq> ErrList v"
    by (simp_all add: ex_err_def)
  have 1: "ignNotatedErrs (Some (ErrList [ex_err, CodeError 10 ''unused: x''])) ex_test
     [ex_main_file, ex_test_file] = Inr (Some (ErrList [CodeError 10 ''unused: x'']))"
    using T[where v = "[ex_err, CodeError 10 ''unused: x'']", THEN conjunct1] ex_notated
    by simp
  have 2: "ignNotatedErrs (Some (ErrList [ex_err])) ex_test [ex_main_file, ex_test_file]
     = Inr (Some ErrIgnoreNotated)"
    using T[where v = "[ex_err]", THEN conjunct1] ex_notated by simp
  have 3: "ignNotatedErrs (Some ex_err) ex_test [ex_main_file, ex_test_file]
     = Inr (Some ErrIgnoreNotated)"
    using T[where err = ex_err and notated = True, THEN conjunct2] ex_notated l by simp
  have 4: "ignNotatedErrs (Some (CodeError 10 ''unused: x'')) ex_test [ex_main_file, ex_test_file]
     = Inr (Some (CodeError 10 ''unused: x''))"
    using T[where err = "CodeError 10 ''unused: x''" and notated = False, THEN conjunct2]
      ex_notated l by simp
  from 1 2 3 4 ex_notated show ?thesis by simp
qed

text \<open>
  C2, at a concrete directory. With \<^verbatim>\<open>IgnoreNotatedError\<close> set, the test package
  fails with an error on a line marked as an expected compile error, which
  \<^verbatim>\<open>ignNotatedErrs\<close> maps to the sentinel: \<^verbatim>\<open>LoadDir\<close> returns the error as it is.
  The same package failing with the same error as the production package is reconciled.
\<close>

theorem LoadDir_test_error_unreconciled:
  "IgnoreNotatedError ex_conf \<and>
   ignNotatedErrs (Some ex_err) ex_test [ex_main_file, ex_test_file] = Inr (Some ErrIgnoreNotated) \<and>
   map_sum id fst (LoadDir ex_X ''d'' (Some ex_conf) True None ex_world)
     = Inr (Some ex_out, Some ex_out_test, Some ex_err) \<and>
   map_sum id fst (LoadDir ex_X_prod_fails ''d'' (Some ex_conf) True None ex_world)
     = Inr (Some ex_out_test, None, Some ErrIgnoreNotated)"
  by (simp add: ex_run_test_fails ex_run_prod_fails) (simp add: eval_defs ex_defs)

text \<open>
  C3, at a concrete directory with a package \<open>main\<close> and a package \<open>util\<close> that has
  no files: visited after \<open>main\<close>, the empty package makes \<^verbatim>\<open>LoadDir\<close> fail with
  \<open>ErrMultiPackges\<close>; visited before it, it is skipped and the load succeeds.
\<close>

theorem LoadDir_empty_package_visit_order:
  "length (Files ex_empty) = 0 \<and>
   map_sum id fst (LoadDir (ex_X_dir [(''main'', ex_main), (''util'', ex_empty)]) ''d''
      (Some ex_conf) False None ex_world) = Inr (None, None, Some ErrMultiPackges) \<and>
   map_sum id fst (LoadDir (ex_X_dir [(''util'', ex_empty), (''main'', ex_main)]) ''d''
      (Some ex_conf) False None ex_world) = Inr (Some ex_out, None, None)"
  by (simp add: ex_X_dir_def eval_defs ex_defs)

subsection \<open>The result of writing the manifest\<close>

lemma save_conf_Mod [simp]:
  "conf_Mod (X\<lparr>SaveWithGopMod := s\<rparr>) dir conf = conf_Mod X dir conf"
  by (auto simp: conf_Mod_def LoadMod_def Let_def split: option.splits prod.splits)

lemma save_conf_Gop [simp]:
  "conf_Gop (X\<lparr>SaveWithGopMod := s\<rparr>) conf = conf_Gop X conf"
  by (simp add: conf_Gop_def split: option.splits)

lemma save_LoadDir_loop [simp]:
  "LoadDir_loop (X\<lparr>SaveWithGopMod := s\<rparr>) dir conf fset prompt pkgs out pt w =
   LoadDir_loop X dir conf fset prompt pkgs out pt w"
  by (induction pkgs arbitrary: out pt w)
     (auto simp: Let_def split: option.splits list.splits prod.splits sum.splits)

lemma save_afterLoad:
  "(case afterLoad (X\<lparr>SaveWithGopMod := s\<rparr>) md gop out test conf w of
      Inl p \<Rightarrow> Inl p | Inr w' \<Rightarrow> Inr c) =
   (case afterLoad X md gop out test conf w of Inl p \<Rightarrow> Inl p | Inr w' \<Rightarrow> Inr c)"
  by (simp add: afterLoad_def Let_def split: sum.splits option.splits)

lemma map_sum_fst_case:
  "map_sum id fst (case a of Inl p \<Rightarrow> Inl p | Inr w' \<Rightarrow> Inr (c, w')) =
   (case a of Inl p \<Rightarrow> Inl p | Inr w' \<Rightarrow> Inr c)"
  by (cases a) simp_all

lemma save_LoadDir_rest:
  "map_sum id fst (LoadDir_rest (X\<lparr>SaveWithGopMod := s\<rparr>) md gop conf gen out pt w) =
   map_sum id fst (LoadDir_rest X md gop conf gen out pt w)"
  by (simp add: LoadDir_rest_def map_sum_fst_case save_afterLoad split: option.splits prod.splits)

lemma save_LoadDir_compile:
  "map_sum id fst (LoadDir_compile (X\<lparr>SaveWithGopMod := s\<rparr>) dir conf md fset pkgs gen prompt w) =
   map_sum id fst (LoadDir_compile X dir conf md fset pkgs gen prompt w)"
  by (simp add: LoadDir_compile_def save_LoadDir_rest split: loop_exit.splits)

lemma save_LoadFiles_compile:
  "map_sum id fst (LoadFiles_compile (X\<lparr>SaveWithGopMod := s\<rparr>) conf md fset pkg w) =
   map_sum id fst (LoadFiles_compile X conf md fset pkg w)"
  by (simp add: LoadFiles_compile_def Let_def map_sum_fst_case save_afterLoad
      split: option.splits prod.splits sum.splits)

text \<open>
  C4, as the code has it. What \<^verbatim>\<open>SaveWithGopMod\<close> returns is dropped: whether a load
  call panics, and the packages and the error it returns, are the same whatever the
  manifest write returns.
\<close>

theorem save_error_discarded:
  "map_sum id fst (LoadDir (X\<lparr>SaveWithGopMod := s\<rparr>) dir conf0 genTestPkg promptGenGo w) =
     map_sum id fst (LoadDir X dir conf0 genTestPkg promptGenGo w) \<and>
   map_sum id fst (LoadFiles (X\<lparr>SaveWithGopMod := s\<rparr>) dir files conf0 w) =
     map_sum id fst (LoadFiles X dir files conf0 w)"
  by (simp add: LoadDir_def LoadFiles_def Let_def save_LoadDir_compile save_LoadFiles_compile
      split: option.splits prod.splits)

text \<open>
  C4 as stated fails: the manifest write fails, and \<^verbatim>\<open>LoadFiles\<close> returns a nil error.
\<close>

theorem save_error_counterexample:
  "SaveWithGopMod ex_X ''gop1.1'' 1 = Some ex_save_err \<and>
   map_sum id (\<lambda>(res, w). (snd res, saved w))
     (LoadFiles ex_X ''d'' [''a.gop''] (Some ex_conf) ex_world)
     = Inr (None, [(''gop1.1'', 1, Some ex_save_err)])"
  by (simp add: ex_run_files) (simp add: ex_defs)

subsection \<open>Loading a list of files\<close>

lemma LoadFiles_parsed:
  assumes "conf_Mod X dir (conf_or_new conf0) = (Some md, None)"
    and "ParseEntries X (conf_Fset (conf_or_new conf0)) files = (fset, pkgs, None)"
  shows "LoadFiles X dir files conf0 w =
    (if length pkgs \<noteq> 1
     then Inr ((None, Some (NewWith ErrMultiPackges ''len(pkgs) != 1'')), w)
     else LoadFiles_compile X (conf_or_new conf0) md fset (snd (hd pkgs)) w)"
  using assms by (simp add: LoadFiles_def Let_def)

text \<open>
  C8. Once the module is resolved and the files are parsed without error,
  \<^verbatim>\<open>LoadFiles\<close> fails with \<open>ErrMultiPackges\<close> (wrapped by \<^verbatim>\<open>errors.NewWith\<close>, the
  cause being \<open>ErrMultiPackges\<close>) and compiles nothing whenever the number of packages
  is not one, zero included; with exactly one package it goes on to compile that
  package, and a call that returns has compiled it once. A call that compiled anything
  had exactly one package.
\<close>

theorem LoadFiles_exactly_one_package:
  assumes "conf_Mod X dir (conf_or_new conf0) = (Some md, None)"
    and "ParseEntries X (conf_Fset (conf_or_new conf0)) files = (fset, pkgs, None)"
  shows "(length pkgs \<noteq> 1 \<longrightarrow>
            LoadFiles X dir files conf0 w =
              Inr ((None, Some (NewWith ErrMultiPackges ''len(pkgs) != 1'')), w) \<and>
            errors_Err (NewWith ErrMultiPackges ''len(pkgs) != 1'') = ErrMultiPackges) \<and>
         (length pkgs = 1 \<longrightarrow>
            LoadFiles X dir files conf0 w =
              LoadFiles_compile X (conf_or_new conf0) md fset (snd (hd pkgs)) w \<and>
            (\<forall>res w'. LoadFiles X dir files conf0 w = Inr (res, w') \<longrightarrow>
               compiled w' = compiled w @
                 [(LoadFiles_out, snd (hd pkgs), NewPackage X (compiled w) (snd (hd pkgs)))] \<and>
               fst res = fst (NewPackage X (compiled w) (snd (hd pkgs))))) \<and>
         (\<forall>res w'. LoadFiles X dir files conf0 w = Inr (res, w') \<and> compiled w' \<noteq> compiled w
            \<longrightarrow> length pkgs = 1)"
proof (intro conjI impI allI)
  assume n: "length pkgs \<noteq> 1"
  with LoadFiles_parsed[OF assms]
  show "LoadFiles X dir files conf0 w =
              Inr ((None, Some (NewWith ErrMultiPackges ''len(pkgs) != 1'')), w)" by simp
  show "errors_Err (NewWith ErrMultiPackges ''len(pkgs) != 1'') = ErrMultiPackges"
    by (simp add: NewWith_def)
next
  assume n: "length pkgs = 1"
  with LoadFiles_parsed[OF assms]
  show c: "LoadFiles X dir files conf0 w =
              LoadFiles_compile X (conf_or_new conf0) md fset (snd (hd pkgs)) w" by simp
  fix res w'
  assume "LoadFiles X dir files conf0 w = Inr (res, w')"
  with c have "LoadFiles_compile X (conf_or_new conf0) md fset (snd (hd pkgs)) w = Inr (res, w')"
    by simp
  then show "compiled w' = compiled w @
                 [(LoadFiles_out, snd (hd pkgs), NewPackage X (compiled w) (snd (hd pkgs)))]"
    and "fst res = fst (NewPackage X (compiled w) (snd (hd pkgs)))"
    by (cases rule: LoadFiles_compile_cases; use afterLoad_effects in fastforce)+
next
  fix res w'
  assume "LoadFiles X dir files conf0 w = Inr (res, w') \<and> compiled w' \<noteq> compiled w"
  with LoadFiles_parsed[OF assms, of w] show "length pkgs = 1"
    by (auto split: if_splits)
qed

theorem LoadFiles_exactly_one_package_witness:
  "LoadFiles (ex_X\<lparr>ParseEntries := \<lambda>fs d. (fs, [], None)\<rparr>) ''d'' [] (Some ex_conf) ex_world
     = Inr ((None, Some (NewWith ErrMultiPackges ''len(pkgs) != 1'')), ex_world) \<and>
   LoadFiles (ex_X\<lparr>ParseEntries := \<lambda>fs d. (fs @ [ex_main_file, ex_test_file],
        [(''main'', ex_main), (''main_test'', ex_test)], None)\<rparr>) ''d'' [''a.gop'', ''a_test.gop'']
        (Some ex_conf) ex_world
     = Inr ((None, Some (NewWith ErrMultiPackges ''len(pkgs) != 1'')), ex_world) \<and>
   (\<exists>res w'. LoadFiles ex_X ''d'' [''a.gop''] (Some ex_conf) ex_world = Inr (res, w') \<and>
      compiled w' = [(LoadFiles_out, ex_main, Some ex_out, None)] \<and> fst res = Some ex_out)"
proof -
  let ?X0 = "ex_X\<lparr>ParseEntries := \<lambda>fs d. (fs, [], None)\<rparr>"
  let ?X2 = "ex_X\<lparr>ParseEntries := \<lambda>fs d. (fs @ [ex_main_file, ex_test_file],
        [(''main'', ex_main), (''main_test'', ex_test)], None)\<rparr>"
  have m: "conf_Mod ?X0 ''d'' (conf_or_new (Some ex_conf)) = (Some ex_mod, None)"
    "conf_Mod ?X2 ''d'' (conf_or_new (Some ex_conf)) = (Some ex_mod, None)"
    "conf_Mod ex_X ''d'' (conf_or_new (Some ex_conf)) = (Some ex_mod, None)"
    by (simp_all add: conf_Mod_def conf_or_new_def ex_conf_def)
  have p0: "ParseEntries ?X0 (conf_Fset (conf_or_new (Some ex_conf))) [] = ([], [], None)"
    by (simp add: conf_Fset_def conf_or_new_def ex_conf_def)
  have p2: "ParseEntries ?X2 (conf_Fset (conf_or_new (Some ex_conf))) [''a.gop'', ''a_test.gop'']
     = ([ex_main_file, ex_test_file], [(''main'', ex_main), (''main_test'', ex_test)], None)"
    by (simp add: conf_Fset_def conf_or_new_def ex_conf_def)
  have p1: "ParseEntries ex_X (conf_Fset (conf_or_new (Some ex_conf))) [''a.gop'']
     = ([ex_main_file], [(''main'', ex_main)], None)"
    by (simp add: conf_Fset_def conf_or_new_def ex_conf_def ex_X_def)
  have 0: "LoadFiles ?X0 ''d'' [] (Some ex_conf) ex_world
     = Inr ((None, Some (NewWith ErrMultiPackges ''len(pkgs) != 1'')), ex_world)"
    using LoadFiles_exactly_one_package[OF m(1) p0, of ex_world, THEN conjunct1] by simp
  have 2: "LoadFiles ?X2 ''d'' [''a.gop'', ''a_test.gop''] (Some ex_conf) ex_world
     = Inr ((None, Some (NewWith ErrMultiPackges ''len(pkgs) != 1'')), ex_world)"
    using LoadFiles_exactly_one_package[OF m(2) p2, of ex_world, THEN conjunct1] by simp
  obtain res w' where r: "LoadFiles ex_X ''d'' [''a.gop''] (Some ex_conf) ex_world = Inr (res, w')"
    using ex_run_files by simp
  have n: "NewPackage ex_X (compiled ex_world) ex_main = (Some ex_out, None)"
    by (simp add: ex_X_def)
  have l: "length [(''main'', ex_main)] = 1" by simp
  have cw: "compiled ex_world = []" by (simp add: ex_world_def)
  note T1 = LoadFiles_exactly_one_package[OF m(3) p1, of ex_world, THEN conjunct2,
      THEN conjunct1, THEN mp, OF l, THEN conjunct2, rule_format, OF r]
  have 1: "compiled w' = [(LoadFiles_out, ex_main, Some ex_out, None)] \<and> fst res = Some ex_out"
    using T1 n by (simp add: cw)
  from 0 2 r 1 show ?thesis by blast
qed



subsection \<open>The classification of notated errors\<close>

lemma strings_Index_bounds: "- 1 \<le> strings_Index s sub"
  by (induction s) (auto simp: Let_def)

lemma strings_Index_le_length: "strings_Index s sub \<le> int (length s)"
  by (induction s) (auto simp: Let_def)

lemma strings_Index_split:
  "0 \<le> strings_Index s sub \<Longrightarrow>
   \<exists>post. s = take (nat (strings_Index s sub)) s @ sub @ post"
proof (induction s)
  case Nil
  then show ?case by (auto split: if_splits)
next
  case (Cons c s)
  show ?case
  proof (cases "prefix sub (c # s)")
    case True
    then show ?thesis by (auto simp: prefix_def)
  next
    case False
    with Cons.prems have r: "0 \<le> strings_Index s sub"
      and e: "strings_Index (c # s) sub = strings_Index s sub + 1"
      by (auto simp: Let_def split: if_splits)
    from Cons.IH[OF r] obtain post where "s = take (nat (strings_Index s sub)) s @ sub @ post" ..
    then have "c # s = take (nat (strings_Index s sub + 1)) (c # s) @ sub @ post"
      using r by (simp add: nat_add_distrib)
    with e show ?thesis by auto
  qed
qed

lemma strings_Index_least:
  "s = pre @ sub @ post \<Longrightarrow> 0 \<le> strings_Index s sub \<and> strings_Index s sub \<le> int (length pre)"
proof (induction s arbitrary: pre)
  case Nil
  then show ?case by simp
next
  case (Cons c s)
  show ?case
  proof (cases "prefix sub (c # s)")
    case True
    then show ?thesis by simp
  next
    case False
    with Cons.prems obtain pre' where p: "pre = c # pre'" and s: "s = pre' @ sub @ post"
      by (cases pre) (auto simp: prefix_def)
    from Cons.IH[OF s] False p show ?thesis by (simp add: Let_def)
  qed
qed

lemma strings_Contains_sublist: "strings_Contains s sub = sublist sub s"
proof
  assume "strings_Contains s sub"
  then have "0 \<le> strings_Index s sub" by (simp add: strings_Contains_def)
  from strings_Index_split[OF this] show "sublist sub s" by (auto simp: sublist_def)
next
  assume "sublist sub s"
  then obtain pre post where "s = pre @ sub @ post" by (auto simp: sublist_def)
  from strings_Index_least[OF this] show "strings_Contains s sub"
    by (simp add: strings_Contains_def)
qed

lemma first_occurrence_Index:
  "first_occurrence sub s pre post \<longleftrightarrow>
     0 \<le> strings_Index s sub \<and> pre = take (nat (strings_Index s sub)) s \<and>
     post = drop (nat (strings_Index s sub) + length sub) s"
proof
  assume f: "first_occurrence sub s pre post"
  then have s: "s = pre @ sub @ post"
    and m: "\<And>pre' post'. s = pre' @ sub @ post' \<Longrightarrow> length pre \<le> length pre'"
    by (auto simp: first_occurrence_def)
  from strings_Index_least[OF s] have i: "0 \<le> strings_Index s sub"
    "strings_Index s sub \<le> int (length pre)" by simp_all
  from strings_Index_split[OF i(1)] obtain post' where
    s': "s = take (nat (strings_Index s sub)) s @ sub @ post'" ..
  from m[OF s'] i have l: "nat (strings_Index s sub) = length pre"
    by (simp add: min_def split: if_splits)
  with s show "0 \<le> strings_Index s sub \<and> pre = take (nat (strings_Index s sub)) s \<and>
     post = drop (nat (strings_Index s sub) + length sub) s"
    using i(1) by simp
next
  assume a: "0 \<le> strings_Index s sub \<and> pre = take (nat (strings_Index s sub)) s \<and>
     post = drop (nat (strings_Index s sub) + length sub) s"
  from strings_Index_split[of s sub] a obtain post' where s: "s = pre @ sub @ post'" by auto
  have lp: "length pre = nat (strings_Index s sub)"
    using a strings_Index_le_length[of s sub] by simp
  have "post = drop (length pre + length sub) (pre @ sub @ post')"
    using a lp s by simp
  then have "post = post'" by simp
  with s have s2: "s = pre @ sub @ post" by simp
  show "first_occurrence sub s pre post"
    unfolding first_occurrence_def
  proof (intro conjI allI impI)
    show "s = pre @ sub @ post" by (rule s2)
    fix pre' post'' assume "s = pre' @ sub @ post''"
    from strings_Index_least[OF this] lp show "length pre \<le> length pre'" by linarith
  qed
qed

lemma takeWhile_line_index:
  fixes off :: nat
  assumes "lines \<noteq> []" and "hd lines \<le> off" and "sorted lines"
  defines "n \<equiv> length (takeWhile (\<lambda>l. l \<le> off) lines)"
  shows "0 < n" and "n \<le> length lines" and "lines ! (n - 1) \<le> off"
    and "\<forall>j < length lines. lines ! j \<le> off \<longrightarrow> j \<le> n - 1"
proof -
  let ?P = "\<lambda>l::nat. l \<le> off"
  from assms(1,2) show pos: "0 < n" unfolding n_def by (cases lines) auto
  show le: "n \<le> length lines" unfolding n_def by (rule length_takeWhile_le)
  have "takeWhile ?P lines ! (n - 1) \<in> set (takeWhile ?P lines)"
    using pos unfolding n_def by (intro nth_mem) simp
  moreover have "takeWhile ?P lines ! (n - 1) = lines ! (n - 1)"
    using pos unfolding n_def by (intro takeWhile_nth) simp
  ultimately show "lines ! (n - 1) \<le> off" by (auto dest: set_takeWhileD)
  show "\<forall>j < length lines. lines ! j \<le> off \<longrightarrow> j \<le> n - 1"
  proof (intro allI impI)
    fix j assume j: "j < length lines" and v: "lines ! j \<le> off"
    show "j \<le> n - 1"
    proof (rule ccontr)
      assume "\<not> j \<le> n - 1"
      then have nj: "n \<le> j" by simp
      with j have "n < length lines" by simp
      then have "\<not> ?P (lines ! n)" unfolding n_def by (rule nth_length_takeWhile)
      moreover have "lines ! n \<le> lines ! j"
        using assms(3) nj j by (rule sorted_nth_mono)
      ultimately show False using v by simp
    qed
  qed
qed

lemma line_range_unique:
  fixes off :: nat
  assumes "file_lines f \<noteq> []" and "hd (file_lines f) = 0" and "sorted (file_lines f)"
  defines "n \<equiv> length (takeWhile (\<lambda>l. l \<le> off) (file_lines f))"
  shows "line_range f off start end \<longleftrightarrow>
     start = file_lines f ! (n - 1) \<and>
     end = (if n < length (file_lines f) then file_lines f ! n else file_Size f)"
proof -
  have h: "hd (file_lines f) \<le> off" using assms(2) by simp
  note L = takeWhile_line_index[OF assms(1) h assms(3), folded n_def]
  show ?thesis
  proof
    assume "line_range f off start end"
    then obtain i where i: "i < length (file_lines f)" "file_lines f ! i \<le> off"
      "\<forall>j < length (file_lines f). file_lines f ! j \<le> off \<longrightarrow> j \<le> i"
      "start = file_lines f ! i"
      "end = (if i + 1 < length (file_lines f) then file_lines f ! (i + 1) else file_Size f)"
      by (auto simp: line_range_def)
    from L(4) i(1,2) have "i \<le> n - 1" by simp
    moreover from i(3) L(1,2,3) have "n - 1 \<le> i" by simp
    ultimately have "i = n - 1" by simp
    with i(4,5) L(1) show "start = file_lines f ! (n - 1) \<and>
     end = (if n < length (file_lines f) then file_lines f ! n else file_Size f)" by simp
  next
    assume a: "start = file_lines f ! (n - 1) \<and>
     end = (if n < length (file_lines f) then file_lines f ! n else file_Size f)"
    show "line_range f off start end"
      unfolding line_range_def
      by (rule exI[of _ "n - 1"]) (use a L in auto)
  qed
qed

lemma spec_position_ErrorPos:
  "spec_position err = Some p \<Longrightarrow> ErrorPos err = p"
  "spec_position err = None \<Longrightarrow> ErrorPos err = NoPos"
  by (auto simp: spec_position_def split: option.splits error.splits)

lemma FileSet_File_NoPos: "FileSet_File fset NoPos = None"
  by (simp add: FileSet_File_def)

lemma spec_notated_ErrorPos:
  "spec_notated err pkg fset =
     (\<exists>f gopf start end pre post.
        FileSet_File fset (ErrorPos err) = Some f \<and>
        map_of (Files pkg) (file_Name f) = Some gopf \<and>
        line_range f (nat (ErrorPos err - int (file_Base f))) start end \<and>
        first_occurrence ''//'' (take (end - start) (drop start (Code gopf))) pre post \<and>
        sublist ''compile error:'' post)"
proof (cases "spec_position err")
  case None
  then show ?thesis
    by (simp add: spec_notated_def spec_position_ErrorPos(2) FileSet_File_NoPos)
next
  case (Some p)
  then show ?thesis
    by (simp add: spec_notated_def spec_position_ErrorPos(1))
qed

text \<open>
  Without line directives, and on a position table and a package as the parser leaves
  them, \<^verbatim>\<open>isNotatedErr\<close> returns, and it returns true exactly when the error is
  notated as the spec words it.
\<close>

lemma isNotatedErr_classifies:
  assumes "wf_position_table fset pkg" and "no_line_directives fset"
  shows "isNotatedErr err pkg fset = Inr (spec_notated err pkg fset)"
proof (cases "FileSet_File fset (ErrorPos err)")
  case None
  then show ?thesis by (simp add: isNotatedErr_def spec_notated_ErrorPos)
next
  case (Some f)
  then have fin: "f \<in> set fset"
    and lo: "int (file_Base f) \<le> ErrorPos err"
    and np: "ErrorPos err \<noteq> NoPos"
    by (auto simp: FileSet_File_def find_Some_iff split: if_splits)
  from assms(2) fin have ni: "file_infos f = []" by (simp add: no_line_directives_def)
  define off where "off = nat (ErrorPos err - int (file_Base f))"
  have offP: "(\<lambda>l. int l \<le> ErrorPos err - int (file_Base f)) = (\<lambda>l. l \<le> off)"
    using lo by (auto simp: off_def)
  from assms fin have wf: "file_lines f \<noteq> []" "hd (file_lines f) = 0" "sorted (file_lines f)"
    "\<forall>l \<in> set (file_lines f). l \<le> file_Size f"
    "\<forall>gopf. map_of (Files pkg) (file_Name f) = Some gopf \<longrightarrow> file_Size f \<le> length (Code gopf)"
    by (auto simp: wf_position_table_def)
  show ?thesis
  proof (cases "map_of (Files pkg) (file_Name f)")
    case None
    with Some show ?thesis by (simp add: isNotatedErr_def spec_notated_ErrorPos)
  next
    case gopf: (Some gopf)
    define n where "n = length (takeWhile (\<lambda>l. l \<le> off) (file_lines f))"
    define start where "start = file_lines f ! (n - 1)"
    define stop where "stop = (if n < length (file_lines f) then file_lines f ! n else file_Size f)"
    define ltext where "ltext = take (stop - start) (drop start (Code gopf))"
    have h: "hd (file_lines f) \<le> off" using wf(2) by simp
    note L = takeWhile_line_index[OF wf(1) h wf(3), folded n_def]
    have ln: "File_Line f (ErrorPos err) = int n"
      using np by (simp add: File_Line_def searchInts_def ni offP n_def Let_def)
    have se: "start \<le> stop"
    proof (cases "n < length (file_lines f)")
      case True
      then have "file_lines f ! (n - 1) \<le> file_lines f ! n"
        using wf(3) by (intro sorted_nth_mono) simp_all
      with True show ?thesis by (simp add: start_def stop_def)
    next
      case False
      with L(1,2) wf(4) show ?thesis by (simp add: start_def stop_def)
    qed
    have ec: "stop \<le> length (Code gopf)"
    proof -
      have "stop \<le> file_Size f" using wf(4) by (simp add: stop_def)
      with wf(5) gopf show ?thesis by fastforce
    qed
    have code: "isNotatedErr err pkg fset =
        Inr (0 \<le> strings_Index ltext ''//'' \<and>
             sublist ''compile error:'' (drop (nat (strings_Index ltext ''//'') + 2) ltext))"
    proof -
      have i: "\<not> (int n - 1 < 0 \<or> int (length (file_lines f)) \<le> int n - 1)"
        "nat (int n - 1) = n - 1" "nat (int n - 1 + 1) = n"
        "(int n - 1 + 1 < int (length (file_lines f))) = (n < length (file_lines f))"
        using L(1,2) by auto
      have b: "\<not> (stop < start \<or> length (Code gopf) < stop)" using se ec by simp
      have "isNotatedErr err pkg fset =
         (if strings_Index ltext ''//'' < 0 then Inr False
          else Inr (strings_Contains (drop (nat (strings_Index ltext ''//'' + 2)) ltext)
                       ''compile error:''))"
        unfolding isNotatedErr_def Let_def Some option.case gopf token_Lines_def ln i if_False
          start_def[symmetric] stop_def[symmetric]
        unfolding if_not_P[OF b] if_not_P[OF i(1)] ltext_def[symmetric] ..
      then show ?thesis
        by (simp add: strings_Contains_sublist nat_add_distrib not_less)
    qed
    have spec: "spec_notated err pkg fset =
        (0 \<le> strings_Index ltext ''//'' \<and>
         sublist ''compile error:'' (drop (nat (strings_Index ltext ''//'') + 2) ltext))"
    proof -
      have lr: "line_range f (nat (ErrorPos err - int (file_Base f))) s e \<longleftrightarrow>
          s = start \<and> e = stop" for s e
        using line_range_unique[OF wf(1,2,3), of off s e]
        by (simp add: n_def start_def stop_def off_def)
      have "spec_notated err pkg fset =
        (\<exists>pre post. first_occurrence ''//'' ltext pre post \<and> sublist ''compile error:'' post)"
        by (simp add: spec_notated_ErrorPos Some gopf lr ltext_def)
      then show ?thesis by (simp add: first_occurrence_Index)
    qed
    from code spec show ?thesis by simp
  qed
qed

lemma ex_classified:
  "wf_position_table [ex_main_file, ex_test_file] ex_test \<and>
   no_line_directives [ex_main_file, ex_test_file] \<and>
   isNotatedErr (Some ex_err) ex_test [ex_main_file, ex_test_file] = Inr True \<and>
   spec_notated (Some ex_err) ex_test [ex_main_file, ex_test_file] \<and>
   isNotatedErr (Some (CodeError 10 ''unused: x'')) ex_test [ex_main_file, ex_test_file]
     = Inr False \<and>
   \<not> spec_notated (Some (CodeError 10 ''unused: x'')) ex_test [ex_main_file, ex_test_file]"
proof -
  have wf: "wf_position_table [ex_main_file, ex_test_file] ex_test"
    by (simp add: wf_position_table_def ex_main_file_def ex_test_file_def ex_test_def ex_src_def)
  have nd: "no_line_directives [ex_main_file, ex_test_file]"
    by (simp add: no_line_directives_def ex_main_file_def ex_test_file_def)
  from isNotatedErr_classifies[OF wf nd, of "Some ex_err"]
    isNotatedErr_classifies[OF wf nd, of "Some (CodeError 10 ''unused: x'')"]
    ex_notated wf nd
  show ?thesis by simp
qed

lemmas ex_directive_defs = ex_directive_src_def ex_directive_file_def ex_directive_pkg_def
  ex_directive_pos_def

lemma ex_directive_spec_notated:
  "wf_position_table [ex_directive_file ''100'' 100] (ex_directive_pkg ''100'') \<and>
   spec_notated (Some (CodeError (ex_directive_pos ''100'') ''undefined: z''))
     (ex_directive_pkg ''100'') [ex_directive_file ''100'' 100] \<and>
   wf_position_table [ex_directive_file ''1'' 1] (ex_directive_pkg ''1'') \<and>
   spec_notated (Some (CodeError (ex_directive_pos ''1'') ''undefined: z''))
     (ex_directive_pkg ''1'') [ex_directive_file ''1'' 1]"
  by (simp add: wf_position_table_def spec_notated_def spec_position_def ex_directive_defs
      FileSet_File_def NoPos_def line_range_unique first_occurrence_Index sublist_Cons_right)

text \<open>
  C6, at a file with a line directive. The error is on the second line of the file, which
  carries the marker, and without the directive \<^verbatim>\<open>isNotatedErr\<close> returns true. With
  the directive \<^verbatim>\<open>//line x.gop:100\<close> the line that \<^verbatim>\<open>File.Line\<close> reports is 100,
  and indexing the line table of two entries with it panics; with \<^verbatim>\<open>//line x.gop:1\<close>
  the reported line is 1, and the text examined is the directive itself, which has no
  marker: \<^verbatim>\<open>isNotatedErr\<close> returns false.
\<close>

theorem isNotatedErr_line_directive:
  "token_Lines (ex_directive_file ''100'' 100) = [0, 17] \<and>
   File_Line (ex_directive_file ''100'' 100) (ex_directive_pos ''100'') = 100 \<and>
   isNotatedErr (Some (CodeError (ex_directive_pos ''100'') ''undefined: z''))
     (ex_directive_pkg ''100'') [ex_directive_file ''100'' 100] = Inl IndexOutOfRange \<and>
   isNotatedErr (Some (CodeError (ex_directive_pos ''100'') ''undefined: z''))
     (ex_directive_pkg ''100'') [(ex_directive_file ''100'' 100)\<lparr>file_infos := []\<rparr>] = Inr True \<and>
   File_Line (ex_directive_file ''1'' 1) (ex_directive_pos ''1'') = 1 \<and>
   isNotatedErr (Some (CodeError (ex_directive_pos ''1'') ''undefined: z''))
     (ex_directive_pkg ''1'') [ex_directive_file ''1'' 1] = Inr False \<and>
   isNotatedErr (Some (CodeError (ex_directive_pos ''1'') ''undefined: z''))
     (ex_directive_pkg ''1'') [(ex_directive_file ''1'' 1)\<lparr>file_infos := []\<rparr>] = Inr True"
  by (simp add: eval_defs ex_directive_defs)

end
